theory Spec2Isabelle
  imports Main "HOL-Library.Word"
begin

unbundle bit_operations_syntax

section \<open>Registers, addresses and the macro assembler\<close>

text \<open>
  The code generator of \<^verbatim>\<open>src/dfg/DFGJITCompiler.cpp\<close> never computes with run-time
  values: every call on the macro assembler appends one instruction. The model of a
  code-emitting function is therefore the list of instructions it appends, in order.
  Linking the jump of the failed check (\<^verbatim>\<open>m_check.link\<close>) binds the place where the
  code begins and appends nothing. A forward jump and the place it is linked to are
  entries of the list, named by a \<open>JumpId\<close>.

  \<^verbatim>\<open>GPRInfo::toRegister(i)\<close> is \<open>GPR i\<close>, \<^verbatim>\<open>FPRInfo::toRegister(i)\<close> is \<open>FPR i\<close>; the two
  reserved registers that the code names are constructors of their own. An invalid
  register (\<^verbatim>\<open>InvalidGPRReg\<close>, \<^verbatim>\<open>InvalidFPRReg\<close>) is \<open>None\<close> of an option.
\<close>

datatype GPRReg = GPR nat | TagTypeNumberRegister | TagMaskRegister

datatype FPRReg = FPR nat

type_synonym VirtualRegister = int

type_synonym NodeIndex = nat

type_synonym JSValue = "64 word"

definition regT0 :: GPRReg where
  "regT0 = GPR 0"

definition regT1 :: GPRReg where
  "regT1 = GPR 1"

text \<open>Step 12 of the OSR exit loads "into regT0" through \<^verbatim>\<open>GPRInfo::cachedResultRegister\<close>.\<close>

definition cachedResultRegister :: GPRReg where
  "cachedResultRegister = regT0"

text \<open>
  The constants of the 64-bit value encoding (\<^verbatim>\<open>JSValue.h\<close>, not among the sources):
  the tag of numbers, the tag mask, and the encodings of \<open>undefined\<close> and \<open>false\<close>.
\<close>

definition TagTypeNumber :: "64 word" where
  "TagTypeNumber = 0xFFFF000000000000"

definition TagMask :: "64 word" where
  "TagMask = 0xFFFF000000000002"

definition ValueUndefined :: JSValue where
  "ValueUndefined = 0x0A"

definition ValueFalse :: "32 word" where
  "ValueFalse = 0x06"

definition isUndefined :: "JSValue \<Rightarrow> bool" where
  "isUndefined v = (v = ValueUndefined)"

datatype Address =
    AddressFor VirtualRegister
  | ScratchBuffer nat
  | ExecuteCounter

datatype JumpId = NotInt | Done | IsInteger | HasUnboxedDouble

datatype Instr =
    Sub32 GPRReg GPRReg
  | OrPtr GPRReg GPRReg
  | OrPtr3 GPRReg GPRReg GPRReg
  | XorPtrImm32 "32 word" GPRReg
  | SubPtr GPRReg GPRReg
  | StorePtr GPRReg Address
  | StorePtrImm "64 word" Address
  | Store32Imm "32 word" Address
  | LoadPtr Address GPRReg
  | Load32 Address GPRReg
  | Move GPRReg GPRReg
  | MoveImmPtr "64 word" GPRReg
  | MoveImm32 "32 word" GPRReg
  | Swap GPRReg GPRReg
  | ZeroExtend32ToPtr GPRReg GPRReg
  | MoveDouble FPRReg FPRReg
  | MoveDoubleToPtr FPRReg GPRReg
  | MovePtrToDouble GPRReg FPRReg
  | BoxDouble FPRReg GPRReg
  | UnboxDouble GPRReg FPRReg
  | ConvertInt32ToDouble GPRReg FPRReg
  | BranchConvertDoubleToInt32 FPRReg GPRReg JumpId FPRReg
  | BranchPtrAboveOrEqual GPRReg GPRReg JumpId
  | JumpFwd JumpId
  | Link JumpId
  | JumpReg GPRReg
  | JumpTo "64 word"

section \<open>Speculation recovery\<close>

datatype SpeculationRecoveryType = SpeculativeAdd | BooleanSpeculationCheck

record SpeculationRecovery =
  type :: SpeculationRecoveryType
  src :: GPRReg
  dest :: GPRReg

section \<open>The OSR exit: data\<close>

datatype ValueRecovery =
    AlreadyInRegisterFile
  | InGPR GPRReg
  | UnboxedInt32InGPR GPRReg
  | InFPR FPRReg
  | DisplacedInRegisterFile nat
  | Constant JSValue
  | DontKnow

text \<open>
  The source of a displaced value is a virtual register that the code asserts to be
  non-negative (\<^verbatim>\<open>ASSERT((int)recovery.virtualRegister() >= 0)\<close>) and then uses as an
  index into a vector; it is a \<open>nat\<close> here.
\<close>

record OSRExit =
  m_arguments :: "ValueRecovery list"
  m_variables :: "ValueRecovery list"
  m_lastSetOperand :: int
  m_bytecodeIndex :: nat

text \<open>
  What the emitter reads off the compiler object and the platform: the two register
  counts, the size of the call-frame header and the slot of the code-block pointer
  (\<^verbatim>\<open>RegisterFile\<close>), the baseline code block (\<^verbatim>\<open>codeBlock()->alternative()\<close>) with its
  warm-up counter value and the start of its machine code, and the FPR, if there is one,
  whose enumerator is zero, so that a test of it as a condition is false. Their
  declarations are not among the sources, so they are parameters.
\<close>

record Config =
  numberOfGPRs :: nat
  numberOfFPRs :: nat
  callFrameHeaderSize :: nat
  codeBlockSlot :: int
  alternative :: "64 word"
  counterValueForOptimizeAfterWarmUp :: "32 word"
  jitCodeStart :: "64 word"
  registerZeroFPR :: "FPRReg option"

text \<open>
  The accessors of \<^verbatim>\<open>OSRExit\<close> that the emitter calls; the structure is declared in a
  header that is not among the sources. A recovery index runs over the arguments first
  and the variables after them; the operand of a variable is its number, the operand of
  an argument lies below the call-frame header.
\<close>

definition numberOfRecoveries :: "OSRExit \<Rightarrow> nat" where
  "numberOfRecoveries exit = length (m_arguments exit) + length (m_variables exit)"

definition valueRecovery :: "OSRExit \<Rightarrow> nat \<Rightarrow> ValueRecovery" where
  "valueRecovery exit index =
     (if index < length (m_arguments exit) then m_arguments exit ! index
      else m_variables exit ! (index - length (m_arguments exit)))"

definition isVariable :: "OSRExit \<Rightarrow> nat \<Rightarrow> bool" where
  "isVariable exit index = (\<not> index < length (m_arguments exit))"

definition variableForIndex :: "OSRExit \<Rightarrow> nat \<Rightarrow> nat" where
  "variableForIndex exit index = index - length (m_arguments exit)"

definition operandForIndex :: "Config \<Rightarrow> OSRExit \<Rightarrow> nat \<Rightarrow> int" where
  "operandForIndex cfg exit index =
     (if index < length (m_arguments exit)
      then int index - int (length (m_arguments exit)) - int (callFrameHeaderSize cfg)
      else int index - int (length (m_arguments exit)))"

definition lastSetOperandNone :: int where
  "lastSetOperandNone = 2 ^ 31 - 1"

section \<open>The OSR exit: the emitter, step by step\<close>

text \<open>Step 2: speculation recovery; the second component is \<^verbatim>\<open>alreadyBoxed\<close>.\<close>

definition osrRecovery :: "SpeculationRecovery option \<Rightarrow> Instr list \<times> GPRReg option" where
  "osrRecovery recovery =
     (case recovery of
        None \<Rightarrow> ([], None)
      | Some r \<Rightarrow>
          (case type r of
             SpeculativeAdd \<Rightarrow>
               ([Sub32 (src r) (dest r), OrPtr TagTypeNumberRegister (dest r)], Some (dest r))
           | BooleanSpeculationCheck \<Rightarrow>
               ([XorPtrImm32 ValueFalse (dest r)], None)))"

text \<open>Step 3: the counts and flags that the classification loop gathers.\<close>

record Classified =
  poisonedVirtualRegisters :: "bool list"
  numberOfPoisonedVirtualRegisters :: nat
  numberOfDisplacedVirtualRegisters :: nat
  haveUnboxedInt32s :: bool
  haveFPRs :: bool
  haveConstants :: bool
  haveUndefined :: bool

definition classifyInit :: "OSRExit \<Rightarrow> Classified" where
  "classifyInit exit =
     \<lparr> poisonedVirtualRegisters = replicate (length (m_variables exit)) False,
       numberOfPoisonedVirtualRegisters = 0,
       numberOfDisplacedVirtualRegisters = 0,
       haveUnboxedInt32s = False,
       haveFPRs = False,
       haveConstants = False,
       haveUndefined = False \<rparr>"

definition poison :: "Classified \<Rightarrow> nat \<Rightarrow> Classified" where
  "poison c v =
     (if \<not> poisonedVirtualRegisters c ! v
      then c \<lparr> poisonedVirtualRegisters := (poisonedVirtualRegisters c)[v := True],
               numberOfPoisonedVirtualRegisters := numberOfPoisonedVirtualRegisters c + 1 \<rparr>
      else c)"

definition classifyStep :: "OSRExit \<Rightarrow> Classified \<Rightarrow> nat \<Rightarrow> Classified" where
  "classifyStep exit c index =
     (case valueRecovery exit index of
        DisplacedInRegisterFile v \<Rightarrow>
          (let c1 = c \<lparr> numberOfDisplacedVirtualRegisters :=
                           numberOfDisplacedVirtualRegisters c + 1 \<rparr>
           in if v < length (m_variables exit)
              then (case m_variables exit ! v of
                      InGPR g \<Rightarrow> poison c1 v
                    | UnboxedInt32InGPR g \<Rightarrow> poison c1 v
                    | InFPR f \<Rightarrow> poison c1 v
                    | _ \<Rightarrow> c1)
              else c1)
      | UnboxedInt32InGPR g \<Rightarrow> c \<lparr> haveUnboxedInt32s := True \<rparr>
      | InFPR f \<Rightarrow> c \<lparr> haveFPRs := True \<rparr>
      | Constant k \<Rightarrow>
          (let c1 = c \<lparr> haveConstants := True \<rparr>
           in if isUndefined k then c1 \<lparr> haveUndefined := True \<rparr> else c1)
      | _ \<Rightarrow> c)"

definition classify :: "OSRExit \<Rightarrow> Classified" where
  "classify exit = foldl (classifyStep exit) (classifyInit exit) [0..<numberOfRecoveries exit]"

text \<open>The number of value-sized slots asked of \<^verbatim>\<open>osrScratchBufferForSize\<close>.\<close>

definition scratchBufferSlots :: "Config \<Rightarrow> OSRExit \<Rightarrow> nat" where
  "scratchBufferSlots cfg exit =
     (let c = classify exit
      in numberOfPoisonedVirtualRegisters c +
         (if numberOfDisplacedVirtualRegisters c \<le> numberOfGPRs cfg then 0
          else numberOfDisplacedVirtualRegisters c))"

text \<open>Step 4: reboxing of integers.\<close>

definition reboxStep :: "OSRExit \<Rightarrow> GPRReg option \<Rightarrow> nat \<Rightarrow> Instr list" where
  "reboxStep exit alreadyBoxed index =
     (case valueRecovery exit index of
        UnboxedInt32InGPR g \<Rightarrow>
          (if Some g \<noteq> alreadyBoxed then [OrPtr TagTypeNumberRegister g] else [])
      | _ \<Rightarrow> [])"

definition reboxIntegers :: "OSRExit \<Rightarrow> Classified \<Rightarrow> GPRReg option \<Rightarrow> Instr list" where
  "reboxIntegers exit c alreadyBoxed =
     (if haveUnboxedInt32s c
      then concat (map (reboxStep exit alreadyBoxed) [0..<numberOfRecoveries exit])
      else [])"

text \<open>
  Steps 5 and 7 share their store: to the scratch buffer at the running
  \<^verbatim>\<open>scratchIndex\<close> when the destination variable is poisoned, to the home slot otherwise.
\<close>

definition dumpRegister ::
  "Config \<Rightarrow> OSRExit \<Rightarrow> bool list \<Rightarrow> nat \<Rightarrow> GPRReg \<Rightarrow> nat \<Rightarrow> Instr list \<times> nat" where
  "dumpRegister cfg exit poisoned index g scratchIndex =
     (if isVariable exit index \<and> poisoned ! variableForIndex exit index
      then ([StorePtr g (ScratchBuffer scratchIndex)], scratchIndex + 1)
      else ([StorePtr g (AddressFor (operandForIndex cfg exit index))], scratchIndex))"

fun dumpGPRs ::
  "Config \<Rightarrow> OSRExit \<Rightarrow> bool list \<Rightarrow> nat list \<Rightarrow> nat \<Rightarrow> Instr list \<times> nat" where
  "dumpGPRs cfg exit poisoned [] scratchIndex = ([], scratchIndex)"
| "dumpGPRs cfg exit poisoned (index # rest) scratchIndex =
     (case valueRecovery exit index of
        InGPR g \<Rightarrow>
          (let (code, si) = dumpRegister cfg exit poisoned index g scratchIndex;
               (code', si') = dumpGPRs cfg exit poisoned rest si
           in (code @ code', si'))
      | UnboxedInt32InGPR g \<Rightarrow>
          (let (code, si) = dumpRegister cfg exit poisoned index g scratchIndex;
               (code', si') = dumpGPRs cfg exit poisoned rest si
           in (code @ code', si'))
      | _ \<Rightarrow> dumpGPRs cfg exit poisoned rest scratchIndex)"

text \<open>Step 6: every double is boxed into the GPR that has the index of its FPR.\<close>

definition gprOfFPR :: "FPRReg \<Rightarrow> GPRReg" where
  "gprOfFPR f = (case f of FPR i \<Rightarrow> GPR i)"

definition boxDoubleStep :: "OSRExit \<Rightarrow> nat \<Rightarrow> Instr list" where
  "boxDoubleStep exit index =
     (case valueRecovery exit index of
        InFPR f \<Rightarrow> [BoxDouble f (gprOfFPR f)]
      | _ \<Rightarrow> [])"

fun dumpFPRs ::
  "Config \<Rightarrow> OSRExit \<Rightarrow> bool list \<Rightarrow> nat list \<Rightarrow> nat \<Rightarrow> Instr list \<times> nat" where
  "dumpFPRs cfg exit poisoned [] scratchIndex = ([], scratchIndex)"
| "dumpFPRs cfg exit poisoned (index # rest) scratchIndex =
     (case valueRecovery exit index of
        InFPR f \<Rightarrow>
          (let (code, si) = dumpRegister cfg exit poisoned index (gprOfFPR f) scratchIndex;
               (code', si') = dumpFPRs cfg exit poisoned rest si
           in (code @ code', si'))
      | _ \<Rightarrow> dumpFPRs cfg exit poisoned rest scratchIndex)"

definition dumpDoubles ::
  "Config \<Rightarrow> OSRExit \<Rightarrow> Classified \<Rightarrow> nat \<Rightarrow> Instr list \<times> nat" where
  "dumpDoubles cfg exit c scratchIndex =
     (if haveFPRs c
      then (let (code, si) = dumpFPRs cfg exit (poisonedVirtualRegisters c)
                               [0..<numberOfRecoveries exit] scratchIndex
            in (concat (map (boxDoubleStep exit) [0..<numberOfRecoveries exit]) @ code, si))
      else ([], scratchIndex))"

text \<open>
  Step 8: the displaced virtual registers. With at most as many of them as there are
  GPRs, all are loaded and then all are stored; otherwise each goes through the scratch
  buffer, written from the running \<^verbatim>\<open>scratchIndex\<close> and read back from
  \<^verbatim>\<open>numberOfPoisonedVirtualRegisters\<close>.
\<close>

fun loadDisplaced :: "OSRExit \<Rightarrow> nat list \<Rightarrow> nat \<Rightarrow> Instr list" where
  "loadDisplaced exit [] displacementIndex = []"
| "loadDisplaced exit (index # rest) displacementIndex =
     (case valueRecovery exit index of
        DisplacedInRegisterFile v \<Rightarrow>
          LoadPtr (AddressFor (int v)) (GPR displacementIndex)
            # loadDisplaced exit rest (displacementIndex + 1)
      | _ \<Rightarrow> loadDisplaced exit rest displacementIndex)"

fun storeDisplaced :: "Config \<Rightarrow> OSRExit \<Rightarrow> nat list \<Rightarrow> nat \<Rightarrow> Instr list" where
  "storeDisplaced cfg exit [] displacementIndex = []"
| "storeDisplaced cfg exit (index # rest) displacementIndex =
     (case valueRecovery exit index of
        DisplacedInRegisterFile v \<Rightarrow>
          StorePtr (GPR displacementIndex) (AddressFor (operandForIndex cfg exit index))
            # storeDisplaced cfg exit rest (displacementIndex + 1)
      | _ \<Rightarrow> storeDisplaced cfg exit rest displacementIndex)"

fun stageDisplaced :: "OSRExit \<Rightarrow> nat list \<Rightarrow> nat \<Rightarrow> Instr list" where
  "stageDisplaced exit [] scratchIndex = []"
| "stageDisplaced exit (index # rest) scratchIndex =
     (case valueRecovery exit index of
        DisplacedInRegisterFile v \<Rightarrow>
          LoadPtr (AddressFor (int v)) regT0
            # StorePtr regT0 (ScratchBuffer scratchIndex)
            # stageDisplaced exit rest (scratchIndex + 1)
      | _ \<Rightarrow> stageDisplaced exit rest scratchIndex)"

fun unstageDisplaced :: "Config \<Rightarrow> OSRExit \<Rightarrow> nat list \<Rightarrow> nat \<Rightarrow> Instr list" where
  "unstageDisplaced cfg exit [] scratchIndex = []"
| "unstageDisplaced cfg exit (index # rest) scratchIndex =
     (case valueRecovery exit index of
        DisplacedInRegisterFile v \<Rightarrow>
          LoadPtr (ScratchBuffer scratchIndex) regT0
            # StorePtr regT0 (AddressFor (operandForIndex cfg exit index))
            # unstageDisplaced cfg exit rest (scratchIndex + 1)
      | _ \<Rightarrow> unstageDisplaced cfg exit rest scratchIndex)"

definition reshuffleDisplaced ::
  "Config \<Rightarrow> OSRExit \<Rightarrow> Classified \<Rightarrow> nat \<Rightarrow> Instr list" where
  "reshuffleDisplaced cfg exit c scratchIndex =
     (if numberOfDisplacedVirtualRegisters c \<noteq> 0
      then (if numberOfDisplacedVirtualRegisters c \<le> numberOfGPRs cfg
            then loadDisplaced exit [0..<numberOfRecoveries exit] 0
                   @ storeDisplaced cfg exit [0..<numberOfRecoveries exit] 0
            else stageDisplaced exit [0..<numberOfRecoveries exit] scratchIndex
                   @ unstageDisplaced cfg exit [0..<numberOfRecoveries exit]
                       (numberOfPoisonedVirtualRegisters c))
      else [])"

text \<open>Step 9: the poisoned virtual registers are drained from the scratch buffer.\<close>

fun drainPoisoned :: "OSRExit \<Rightarrow> bool list \<Rightarrow> nat list \<Rightarrow> nat \<Rightarrow> Instr list" where
  "drainPoisoned exit poisoned [] scratchIndex = []"
| "drainPoisoned exit poisoned (virtualRegister # rest) scratchIndex =
     (if \<not> poisoned ! virtualRegister then drainPoisoned exit poisoned rest scratchIndex
      else (case m_variables exit ! virtualRegister of
              InGPR g \<Rightarrow>
                LoadPtr (ScratchBuffer scratchIndex) regT0
                  # StorePtr regT0 (AddressFor (int virtualRegister))
                  # drainPoisoned exit poisoned rest (scratchIndex + 1)
            | UnboxedInt32InGPR g \<Rightarrow>
                LoadPtr (ScratchBuffer scratchIndex) regT0
                  # StorePtr regT0 (AddressFor (int virtualRegister))
                  # drainPoisoned exit poisoned rest (scratchIndex + 1)
            | InFPR f \<Rightarrow>
                LoadPtr (ScratchBuffer scratchIndex) regT0
                  # StorePtr regT0 (AddressFor (int virtualRegister))
                  # drainPoisoned exit poisoned rest (scratchIndex + 1)
            | _ \<Rightarrow> drainPoisoned exit poisoned rest scratchIndex))"

definition dumpPoisoned :: "OSRExit \<Rightarrow> Classified \<Rightarrow> Instr list" where
  "dumpPoisoned exit c =
     (if numberOfPoisonedVirtualRegisters c \<noteq> 0
      then drainPoisoned exit (poisonedVirtualRegisters c) [0..<length (m_variables exit)] 0
      else [])"

text \<open>Step 10: the constants, \<open>undefined\<close> through one shared register.\<close>

definition constantStep :: "Config \<Rightarrow> OSRExit \<Rightarrow> nat \<Rightarrow> Instr list" where
  "constantStep cfg exit index =
     (case valueRecovery exit index of
        Constant k \<Rightarrow>
          (if isUndefined k then [StorePtr regT0 (AddressFor (operandForIndex cfg exit index))]
           else [StorePtrImm k (AddressFor (operandForIndex cfg exit index))])
      | _ \<Rightarrow> [])"

definition dumpConstants :: "Config \<Rightarrow> OSRExit \<Rightarrow> Classified \<Rightarrow> Instr list" where
  "dumpConstants cfg exit c =
     (if haveConstants c
      then (if haveUndefined c then [MoveImmPtr ValueUndefined regT0] else [])
             @ concat (map (constantStep cfg exit) [0..<numberOfRecoveries exit])
      else [])"

text \<open>Step 12: the result of the last bytecode operation.\<close>

definition loadLastSetOperand :: "OSRExit \<Rightarrow> Instr list" where
  "loadLastSetOperand exit =
     (if m_lastSetOperand exit \<noteq> lastSetOperandNone
      then [LoadPtr (AddressFor (m_lastSetOperand exit)) cachedResultRegister]
      else [])"

text \<open>
  Step 14 looks the exit's bytecode index up in the decoded map of
  (bytecode index, machine-code offset) pairs. The search routine is not among the
  sources; a missing entry, which the code only asserts against, is \<open>None\<close>.
\<close>

definition jumpTargetFor :: "Config \<Rightarrow> (nat \<times> nat) list \<Rightarrow> nat \<Rightarrow> 64 word option" where
  "jumpTargetFor cfg decodedCodeMap bytecodeIndex =
     (case map_of decodedCodeMap bytecodeIndex of
        None \<Rightarrow> None
      | Some machineCodeOffset \<Rightarrow> Some (jitCodeStart cfg + of_nat machineCodeOffset))"

text \<open>The steps in the order of the source; steps 2 to 10 are the state transfer.\<close>

definition osrBeforeLastSet ::
  "Config \<Rightarrow> OSRExit \<Rightarrow> SpeculationRecovery option \<Rightarrow> Instr list" where
  "osrBeforeLastSet cfg exit recovery =
     (let (recoveryCode, alreadyBoxed) = osrRecovery recovery;
          c = classify exit;
          (gprCode, scratchIndex1) =
             dumpGPRs cfg exit (poisonedVirtualRegisters c) [0..<numberOfRecoveries exit] 0;
          (fprCode, scratchIndex2) = dumpDoubles cfg exit c scratchIndex1
      in recoveryCode
           @ reboxIntegers exit c alreadyBoxed
           @ gprCode
           @ fprCode
           @ reshuffleDisplaced cfg exit c scratchIndex2
           @ dumpPoisoned exit c
           @ dumpConstants cfg exit c
           @ [Store32Imm (counterValueForOptimizeAfterWarmUp cfg) ExecuteCounter])"

definition exitSpeculativeWithOSR ::
  "Config \<Rightarrow> OSRExit \<Rightarrow> SpeculationRecovery option \<Rightarrow> (nat \<times> nat) list
     \<Rightarrow> Instr list option" where
  "exitSpeculativeWithOSR cfg exit recovery decodedCodeMap =
     (case jumpTargetFor cfg decodedCodeMap (m_bytecodeIndex exit) of
        None \<Rightarrow> None
      | Some jumpTarget \<Rightarrow>
          Some (osrBeforeLastSet cfg exit recovery
                  @ loadLastSetOperand exit
                  @ [StorePtrImm (alternative cfg) (AddressFor (codeBlockSlot cfg))]
                  @ [MoveImmPtr jumpTarget regT1, JumpReg regT1]))"

section \<open>Running emitted code\<close>

text \<open>
  A machine state: the two register files as raw 64-bit contents, the call frame
  addressed by virtual register, the OSR scratch buffer, the execute counter of the
  baseline code block, and where control went. Floating-point conversion and forward
  branches are not given a meaning: code that contains them does not run here.

  A 32-bit operation leaves the upper half of its destination zero. \<^verbatim>\<open>boxDouble\<close> is
  what part 1 of the bridge spells out for a spilled double: the bits of the double
  minus the content of the number-tag register; \<^verbatim>\<open>unboxDouble\<close> adds that register
  to the GPR and moves the bits to the FPR.
\<close>

record Machine =
  gprs :: "GPRReg \<Rightarrow> 64 word"
  fprs :: "FPRReg \<Rightarrow> 64 word"
  registerFile :: "int \<Rightarrow> 64 word"
  scratchBuffer :: "nat \<Rightarrow> 64 word"
  executeCounter :: "32 word"
  jumpedTo :: "64 word option"

definition setGPR :: "GPRReg \<Rightarrow> 64 word \<Rightarrow> Machine \<Rightarrow> Machine" where
  "setGPR g v s = s \<lparr> gprs := (gprs s)(g := v) \<rparr>"

definition setFPR :: "FPRReg \<Rightarrow> 64 word \<Rightarrow> Machine \<Rightarrow> Machine" where
  "setFPR f v s = s \<lparr> fprs := (fprs s)(f := v) \<rparr>"

definition loadFrom :: "Address \<Rightarrow> Machine \<Rightarrow> 64 word" where
  "loadFrom a s =
     (case a of
        AddressFor v \<Rightarrow> registerFile s v
      | ScratchBuffer i \<Rightarrow> scratchBuffer s i
      | ExecuteCounter \<Rightarrow> ucast (executeCounter s))"

definition storeTo :: "Address \<Rightarrow> 64 word \<Rightarrow> Machine \<Rightarrow> Machine" where
  "storeTo a v s =
     (case a of
        AddressFor r \<Rightarrow> s \<lparr> registerFile := (registerFile s)(r := v) \<rparr>
      | ScratchBuffer i \<Rightarrow> s \<lparr> scratchBuffer := (scratchBuffer s)(i := v) \<rparr>
      | ExecuteCounter \<Rightarrow> s \<lparr> executeCounter := ucast v \<rparr>)"

definition low32 :: "64 word \<Rightarrow> 64 word" where
  "low32 v = ucast (ucast v :: 32 word)"

fun exec1 :: "Instr \<Rightarrow> Machine \<Rightarrow> Machine option" where
  "exec1 (Sub32 a d) s =
     Some (setGPR d (ucast ((ucast (gprs s d) :: 32 word) - ucast (gprs s a))) s)"
| "exec1 (OrPtr a d) s = Some (setGPR d (gprs s d OR gprs s a) s)"
| "exec1 (OrPtr3 a b d) s = Some (setGPR d (gprs s a OR gprs s b) s)"
| "exec1 (XorPtrImm32 i d) s = Some (setGPR d (gprs s d XOR scast i) s)"
| "exec1 (SubPtr a d) s = Some (setGPR d (gprs s d - gprs s a) s)"
| "exec1 (StorePtr g a) s = Some (storeTo a (gprs s g) s)"
| "exec1 (StorePtrImm i a) s = Some (storeTo a i s)"
| "exec1 (Store32Imm i a) s = Some (storeTo a (ucast i) s)"
| "exec1 (LoadPtr a g) s = Some (setGPR g (loadFrom a s) s)"
| "exec1 (Load32 a g) s = Some (setGPR g (low32 (loadFrom a s)) s)"
| "exec1 (Move a d) s = Some (setGPR d (gprs s a) s)"
| "exec1 (MoveImmPtr i d) s = Some (setGPR d i s)"
| "exec1 (MoveImm32 i d) s = Some (setGPR d (ucast i) s)"
| "exec1 (Swap a b) s = Some (setGPR b (gprs s a) (setGPR a (gprs s b) s))"
| "exec1 (ZeroExtend32ToPtr a d) s = Some (setGPR d (low32 (gprs s a)) s)"
| "exec1 (MoveDouble a d) s = Some (setFPR d (fprs s a) s)"
| "exec1 (MoveDoubleToPtr f g) s = Some (setGPR g (fprs s f) s)"
| "exec1 (MovePtrToDouble g f) s = Some (setFPR f (gprs s g) s)"
| "exec1 (BoxDouble f g) s = Some (setGPR g (fprs s f - gprs s TagTypeNumberRegister) s)"
| "exec1 (UnboxDouble g f) s =
     (let v = gprs s g + gprs s TagTypeNumberRegister in Some (setFPR f v (setGPR g v s)))"
| "exec1 (ConvertInt32ToDouble g f) s = None"
| "exec1 (BranchConvertDoubleToInt32 f g j t) s = None"
| "exec1 (BranchPtrAboveOrEqual a b j) s = None"
| "exec1 (JumpFwd j) s = None"
| "exec1 (Link j) s = Some s"
| "exec1 (JumpReg g) s = Some (s \<lparr> jumpedTo := Some (gprs s g) \<rparr>)"
| "exec1 (JumpTo l) s = Some (s \<lparr> jumpedTo := Some l \<rparr>)"

fun run :: "Instr list \<Rightarrow> Machine \<Rightarrow> Machine option" where
  "run [] s = Some s"
| "run (i # rest) s = (case exec1 i s of None \<Rightarrow> None | Some s' \<Rightarrow> run rest s')"

section \<open>The register-to-register bridge: data\<close>

datatype DataFormat =
    DataFormatNone
  | DataFormatInteger
  | DataFormatDouble
  | DataFormatCell
  | DataFormatJS
  | DataFormatJSInteger
  | DataFormatJSDouble
  | DataFormatJSCell

text \<open>
  Modelled from the spec: \<^verbatim>\<open>needDataFormatConversion\<close> is declared in a header that is
  not among the sources. The specification of the representation converter says that
  equal tags need nothing and that the conversions are exactly those between the
  unboxed integer or the double and a boxed form, in either direction.
\<close>

definition needDataFormatConversion :: "DataFormat \<Rightarrow> DataFormat \<Rightarrow> bool" where
  "needDataFormatConversion from to =
     (case from of
        DataFormatInteger \<Rightarrow> to \<noteq> from
      | DataFormatDouble \<Rightarrow> to \<noteq> from
      | _ \<Rightarrow> to = DataFormatInteger \<or> to = DataFormatDouble)"

text \<open>\<^verbatim>\<open>NoNode\<close> is \<open>None\<close>.\<close>

record RegisterInfo =
  nodeIndex :: "NodeIndex option"
  format :: DataFormat
  isSpilled :: bool

text \<open>
  A speculation check and an entry location both carry one \<^verbatim>\<open>RegisterInfo\<close> for every
  GPR and every FPR; the entry location has the label of the entry besides.
\<close>

record SpeculationCheck =
  m_gprInfo :: "RegisterInfo list"
  m_fprInfo :: "RegisterInfo list"

record EntryLocation = SpeculationCheck +
  m_entry :: "64 word"

text \<open>What the emitter reads off the graph for a node.\<close>

record Node =
  virtualRegister :: VirtualRegister
  isConstant :: bool
  isInt32Constant :: bool
  isNumberConstant :: bool
  valueOfInt32Constant :: "32 word"
  valueOfNumberConstant :: "64 word"
  valueOfJSConstant :: JSValue

datatype GeneralizedRegister = createGPR GPRReg | createFPR FPRReg

definition isFPR :: "GeneralizedRegister \<Rightarrow> bool" where
  "isFPR r = (case r of createFPR f \<Rightarrow> True | createGPR g \<Rightarrow> False)"

definition unusedRegister :: RegisterInfo where
  "unusedRegister = \<lparr> nodeIndex = None, format = DataFormatNone, isSpilled = False \<rparr>"

text \<open>
  \<^verbatim>\<open>findInSpeculationCheck\<close> and \<^verbatim>\<open>findInEntryLocation\<close>. The reserved registers have no
  index; the emitter never looks them up.
\<close>

definition findInfo :: "GeneralizedRegister \<Rightarrow> 'a SpeculationCheck_scheme \<Rightarrow> RegisterInfo" where
  "findInfo r maps =
     (case r of
        createFPR (FPR i) \<Rightarrow> m_fprInfo maps ! i
      | createGPR (GPR i) \<Rightarrow> m_gprInfo maps ! i
      | createGPR _ \<Rightarrow> unusedRegister)"

definition previousDataFormat :: "GeneralizedRegister \<Rightarrow> SpeculationCheck \<Rightarrow> DataFormat" where
  "previousDataFormat r check = format (findInfo r check)"

definition nextDataFormat :: "GeneralizedRegister \<Rightarrow> EntryLocation \<Rightarrow> DataFormat" where
  "nextDataFormat r entry = format (findInfo r entry)"

section \<open>The bridge: moving one register\<close>

text \<open>
  \<^verbatim>\<open>convert\<close> asks for the GPR of the register; on an FPR that is an assertion failure,
  which is \<open>None\<close>.
\<close>

definition convert ::
  "GeneralizedRegister \<Rightarrow> DataFormat \<Rightarrow> DataFormat \<Rightarrow> Instr list option" where
  "convert r oldDataFormat newDataFormat =
     (if \<not> needDataFormatConversion oldDataFormat newDataFormat then Some []
      else (case r of
              createFPR f \<Rightarrow> None
            | createGPR g \<Rightarrow>
                (if oldDataFormat = DataFormatInteger then Some [OrPtr TagTypeNumberRegister g]
                 else Some [ZeroExtend32ToPtr g g])))"

text \<open>
  A double that goes to a GPR: with a scratch FPR the conversion to an integer is
  attempted first, and the double is boxed when that fails.
\<close>

definition doubleToGPR :: "FPRReg \<Rightarrow> GPRReg \<Rightarrow> FPRReg option \<Rightarrow> Instr list" where
  "doubleToGPR f g scratchFPR =
     (case scratchFPR of
        Some t \<Rightarrow>
          [BranchConvertDoubleToInt32 f g NotInt t, OrPtr TagTypeNumberRegister g,
           JumpFwd Done, Link NotInt, BoxDouble f g, Link Done]
      | None \<Rightarrow> [BoxDouble f g])"

definition moveTo ::
  "GeneralizedRegister \<Rightarrow> GeneralizedRegister \<Rightarrow> DataFormat \<Rightarrow> DataFormat
     \<Rightarrow> FPRReg option \<Rightarrow> Instr list" where
  "moveTo r other myDataFormat otherDataFormat scratchFPR =
     (case r of
        createFPR f \<Rightarrow>
          (case other of
             createFPR f' \<Rightarrow> [MoveDouble f f']
           | createGPR g' \<Rightarrow> doubleToGPR f g' scratchFPR)
      | createGPR g \<Rightarrow>
          (case other of
             createFPR f' \<Rightarrow> [UnboxDouble g f']
           | createGPR g' \<Rightarrow>
               (if \<not> needDataFormatConversion myDataFormat otherDataFormat then [Move g g']
                else if myDataFormat = DataFormatInteger
                     then [OrPtr3 g TagTypeNumberRegister g']
                     else [ZeroExtend32ToPtr g g'])))"

definition convertAfterSwap :: "GPRReg \<Rightarrow> DataFormat \<Rightarrow> DataFormat \<Rightarrow> Instr list" where
  "convertAfterSwap g arrivedDataFormat newDataFormat =
     (if needDataFormatConversion arrivedDataFormat newDataFormat
      then (if arrivedDataFormat = DataFormatInteger then [OrPtr TagTypeNumberRegister g]
            else if newDataFormat = DataFormatInteger then [ZeroExtend32ToPtr g g]
            else [])
      else [])"

definition swapDoubleWithGPR ::
  "FPRReg \<Rightarrow> GPRReg \<Rightarrow> GPRReg \<Rightarrow> FPRReg option \<Rightarrow> Instr list" where
  "swapDoubleWithGPR f g scratchGPR scratchFPR =
     [Move g scratchGPR] @ doubleToGPR f g scratchFPR @ [UnboxDouble scratchGPR f]"

definition swapWith ::
  "GeneralizedRegister \<Rightarrow> GeneralizedRegister \<Rightarrow> DataFormat \<Rightarrow> DataFormat \<Rightarrow> DataFormat
     \<Rightarrow> DataFormat \<Rightarrow> GPRReg \<Rightarrow> FPRReg option \<Rightarrow> Instr list" where
  "swapWith r other myDataFormat myNewDataFormat otherDataFormat otherNewDataFormat
       scratchGPR scratchFPR =
     (case r of
        createFPR f \<Rightarrow>
          (case other of
             createFPR f' \<Rightarrow>
               (case scratchFPR of
                  None \<Rightarrow>
                    [MoveDoubleToPtr f scratchGPR, MoveDouble f' f, MovePtrToDouble scratchGPR f']
                | Some t \<Rightarrow> [MoveDouble f t, MoveDouble f' f, MoveDouble t f'])
           | createGPR g' \<Rightarrow> swapDoubleWithGPR f g' scratchGPR scratchFPR)
      | createGPR g \<Rightarrow>
          (case other of
             createFPR f' \<Rightarrow> swapDoubleWithGPR f' g scratchGPR scratchFPR
           | createGPR g' \<Rightarrow>
               [Swap g g']
                 @ convertAfterSwap g otherDataFormat myNewDataFormat
                 @ convertAfterSwap g' myDataFormat otherNewDataFormat))"

section \<open>The bridge: shuffled registers\<close>

text \<open>
  The two arrays \<^verbatim>\<open>gprs\<close> and \<^verbatim>\<open>fprs\<close> are one list, the GPRs first, numbered as
  \<^verbatim>\<open>lookupForRegister\<close> numbers them; a pointer to a \<^verbatim>\<open>ShuffledRegister\<close> is its number,
  the null pointer is \<open>None\<close>.
\<close>

record ShuffledRegister =
  reg :: GeneralizedRegister
  previous :: "nat option"
  hasFrom :: bool
  hasTo :: bool
  handled :: bool

definition newShuffledRegister :: "GeneralizedRegister \<Rightarrow> ShuffledRegister" where
  "newShuffledRegister r =
     \<lparr> reg = r, previous = None, hasFrom = False, hasTo = False, handled = False \<rparr>"

definition initialShuffle :: "Config \<Rightarrow> ShuffledRegister list" where
  "initialShuffle cfg =
     map (\<lambda>index. newShuffledRegister (createGPR (GPR index))) [0..<numberOfGPRs cfg]
       @ map (\<lambda>index. newShuffledRegister (createFPR (FPR index))) [0..<numberOfFPRs cfg]"

definition lookup :: "Config \<Rightarrow> GeneralizedRegister \<Rightarrow> nat" where
  "lookup cfg r =
     (case r of
        createFPR (FPR i) \<Rightarrow> numberOfGPRs cfg + i
      | createGPR (GPR i) \<Rightarrow> i
      | createGPR _ \<Rightarrow> numberOfGPRs cfg + numberOfFPRs cfg)"

definition isEndOfNonCyclingPermutation :: "ShuffledRegister \<Rightarrow> bool" where
  "isEndOfNonCyclingPermutation r = (hasTo r \<and> \<not> hasFrom r)"

text \<open>The bookkeeping of scratch FPRs that a chain does for the register it is at.\<close>

definition noteScratchFPR ::
  "GeneralizedRegister \<Rightarrow> FPRReg option \<times> FPRReg option \<Rightarrow> FPRReg option \<times> FPRReg option" where
  "noteScratchFPR r scratch =
     (case r of
        createFPR f \<Rightarrow>
          (if fst scratch = None then (Some f, snd scratch) else (fst scratch, Some f))
      | createGPR g \<Rightarrow> scratch)"

text \<open>
  \<^verbatim>\<open>handleNonCyclingPermutation\<close>. The loop follows \<^verbatim>\<open>previous\<close> until it is null; the
  fuel bounds the number of registers visited, and running out of it is \<open>None\<close>.
\<close>

fun handleNonCyclingPermutation ::
  "nat \<Rightarrow> SpeculationCheck \<Rightarrow> EntryLocation \<Rightarrow> ShuffledRegister list \<Rightarrow> nat
     \<Rightarrow> FPRReg option \<times> FPRReg option
     \<Rightarrow> (Instr list \<times> ShuffledRegister list \<times> FPRReg option \<times> FPRReg option) option" where
  "handleNonCyclingPermutation 0 check entry regs cur scratch = None"
| "handleNonCyclingPermutation (Suc fuel) check entry regs cur scratch =
     (case previous (regs ! cur) of
        None \<Rightarrow>
          Some ([], regs[cur := (regs ! cur) \<lparr> handled := True \<rparr>],
                noteScratchFPR (reg (regs ! cur)) scratch)
      | Some prev \<Rightarrow>
          (let code = moveTo (reg (regs ! prev)) (reg (regs ! cur))
                        (previousDataFormat (reg (regs ! prev)) check)
                        (nextDataFormat (reg (regs ! cur)) entry) (fst scratch)
           in case handleNonCyclingPermutation fuel check entry
                     (regs[cur := (regs ! cur) \<lparr> handled := True \<rparr>]) prev
                     (noteScratchFPR (reg (regs ! cur)) scratch) of
                None \<Rightarrow> None
              | Some (code', result) \<Rightarrow> Some (code @ code', result)))"

text \<open>
  \<^verbatim>\<open>handleCyclingPermutation\<close>, first loop: the length of the cycle and the register
  \<^verbatim>\<open>next\<close> whose \<^verbatim>\<open>previous\<close> is the one the walk began at. A null \<^verbatim>\<open>previous\<close> on the
  way is dereferenced by the next round, which is \<open>None\<close>.
\<close>

fun cycleLength ::
  "nat \<Rightarrow> ShuffledRegister list \<Rightarrow> nat \<Rightarrow> nat \<Rightarrow> nat
     \<Rightarrow> (ShuffledRegister list \<times> nat \<times> nat) option" where
  "cycleLength 0 regs this cur len = None"
| "cycleLength (Suc fuel) regs this cur len =
     (let regs' = regs[cur := (regs ! cur) \<lparr> handled := True \<rparr>]
      in case previous (regs ! cur) of
           None \<Rightarrow> None
         | Some prev \<Rightarrow>
             (if prev = this then Some (regs', len + 1, cur)
              else cycleLength fuel regs' this prev (len + 1)))"

text \<open>The loop that rotates the rest of a cycle of length three or more.\<close>

fun rotateCycle ::
  "nat \<Rightarrow> SpeculationCheck \<Rightarrow> EntryLocation \<Rightarrow> ShuffledRegister list \<Rightarrow> nat \<Rightarrow> nat
     \<Rightarrow> FPRReg option \<Rightarrow> Instr list option" where
  "rotateCycle 0 check entry regs this cur scratchFPR1 = None"
| "rotateCycle (Suc fuel) check entry regs this cur scratchFPR1 =
     (case previous (regs ! cur) of
        None \<Rightarrow> None
      | Some prev \<Rightarrow>
          (if prev = this then Some []
           else (case rotateCycle fuel check entry regs this prev scratchFPR1 of
                   None \<Rightarrow> None
                 | Some code' \<Rightarrow>
                     Some (moveTo (reg (regs ! prev)) (reg (regs ! cur))
                             (previousDataFormat (reg (regs ! prev)) check)
                             (nextDataFormat (reg (regs ! cur)) entry) scratchFPR1
                           @ code'))))"

definition handleLongCycle ::
  "nat \<Rightarrow> SpeculationCheck \<Rightarrow> EntryLocation \<Rightarrow> ShuffledRegister list \<Rightarrow> nat \<Rightarrow> nat
     \<Rightarrow> GPRReg \<Rightarrow> FPRReg option \<Rightarrow> FPRReg option \<Rightarrow> Instr list option" where
  "handleLongCycle fuel check entry regs this next scratchGPR scratchFPR1 scratchFPR2 =
     (let r = reg (regs ! this);
          n = reg (regs ! next);
          (scratch, save, restore) =
            (if isFPR r \<and> isFPR n
             then (case scratchFPR2 of
                     None \<Rightarrow>
                       (createGPR scratchGPR,
                        moveTo r (createGPR scratchGPR) DataFormatDouble DataFormatJSDouble
                          scratchFPR1,
                        moveTo (createGPR scratchGPR) n DataFormatJSDouble DataFormatDouble
                          scratchFPR1)
                   | Some f2 \<Rightarrow>
                       (createFPR f2,
                        moveTo r (createFPR f2) DataFormatDouble DataFormatDouble scratchFPR1,
                        moveTo (createFPR f2) n DataFormatDouble DataFormatDouble scratchFPR1))
             else (createGPR scratchGPR,
                   moveTo r (createGPR scratchGPR) (previousDataFormat r check)
                     (nextDataFormat n entry) scratchFPR1,
                   moveTo (createGPR scratchGPR) n (nextDataFormat n entry)
                     (nextDataFormat n entry) scratchFPR1))
      in case rotateCycle fuel check entry regs this this scratchFPR1 of
           None \<Rightarrow> None
         | Some rotation \<Rightarrow> Some (save @ rotation @ restore))"

definition handleCyclingPermutation ::
  "nat \<Rightarrow> SpeculationCheck \<Rightarrow> EntryLocation \<Rightarrow> ShuffledRegister list \<Rightarrow> nat
     \<Rightarrow> GPRReg \<Rightarrow> FPRReg option \<Rightarrow> FPRReg option
     \<Rightarrow> (Instr list \<times> ShuffledRegister list) option" where
  "handleCyclingPermutation fuel check entry regs this scratchGPR scratchFPR1 scratchFPR2 =
     (case cycleLength fuel regs this this 0 of
        None \<Rightarrow> None
      | Some (regs', len, next) \<Rightarrow>
          (let r = reg (regs' ! this)
           in if len = 1
              then (case convert r (previousDataFormat r check) (nextDataFormat r entry) of
                      None \<Rightarrow> None
                    | Some code \<Rightarrow> Some (code, regs'))
              else if len = 2
              then (case previous (regs' ! this) of
                      None \<Rightarrow> None
                    | Some prev \<Rightarrow>
                        (let q = reg (regs' ! prev)
                         in Some (swapWith r q
                                    (previousDataFormat r check) (nextDataFormat r entry)
                                    (previousDataFormat q check) (nextDataFormat q entry)
                                    scratchGPR scratchFPR1,
                                  regs')))
              else (case handleLongCycle fuel check entry regs' this next
                           scratchGPR scratchFPR1 scratchFPR2 of
                      None \<Rightarrow> None
                    | Some code \<Rightarrow> Some (code, regs'))))"

section \<open>The bridge: the emitter\<close>

text \<open>
  \<^verbatim>\<open>NodeToRegisterMap\<close>: \<^verbatim>\<open>set\<close> appends a tuple, \<^verbatim>\<open>find\<close> searches from the last tuple
  back to the first.
\<close>

type_synonym NodeToRegisterMap = "(NodeIndex \<times> GeneralizedRegister) list"

definition mapSet ::
  "NodeToRegisterMap \<Rightarrow> NodeIndex \<Rightarrow> GeneralizedRegister \<Rightarrow> NodeToRegisterMap" where
  "mapSet m first second = m @ [(first, second)]"

definition mapFind ::
  "NodeToRegisterMap \<Rightarrow> NodeIndex \<Rightarrow> (NodeIndex \<times> GeneralizedRegister) option" where
  "mapFind m first = find (\<lambda>t. fst t = first) (rev m)"

text \<open>The locals of \<^verbatim>\<open>jumpFromSpeculativeToNonSpeculative\<close> and the code emitted so far.\<close>

record Bridge =
  checkNodeToRegisterMap :: NodeToRegisterMap
  entryNodeToRegisterMap :: NodeToRegisterMap
  scratchGPR :: "GPRReg option"
  scratchFPR1 :: "FPRReg option"
  scratchFPR2 :: "FPRReg option"
  needToRestoreTagMaskRegister :: bool
  shuffled :: "ShuffledRegister list"
  emitted :: "Instr list"

definition emit :: "Bridge \<Rightarrow> Instr list \<Rightarrow> Bridge" where
  "emit b code = b \<lparr> emitted := emitted b @ code \<rparr>"

text \<open>The recovery that precedes everything else.\<close>

definition bridgeRecovery :: "SpeculationCheck \<Rightarrow> SpeculationRecovery option \<Rightarrow> Instr list" where
  "bridgeRecovery check recovery =
     (case recovery of
        None \<Rightarrow> []
      | Some r \<Rightarrow>
          (case type r of
             SpeculativeAdd \<Rightarrow>
               Sub32 (src r) (dest r)
                 # (if format (findInfo (createGPR (dest r)) check) \<noteq> DataFormatInteger
                    then [OrPtr TagTypeNumberRegister (dest r)]
                    else [])
           | BooleanSpeculationCheck \<Rightarrow> [XorPtrImm32 ValueFalse (dest r)]))"

definition bridgeInit :: "Config \<Rightarrow> SpeculationCheck \<Rightarrow> SpeculationRecovery option \<Rightarrow> Bridge" where
  "bridgeInit cfg check recovery =
     \<lparr> checkNodeToRegisterMap = [],
       entryNodeToRegisterMap = [],
       scratchGPR = None,
       scratchFPR1 = None,
       scratchFPR2 = None,
       needToRestoreTagMaskRegister = False,
       shuffled = initialShuffle cfg,
       emitted = bridgeRecovery check recovery \<rparr>"

text \<open>The reverse maps, and the registers that are unused on both sides.\<close>

definition discoverGPR :: "SpeculationCheck \<Rightarrow> EntryLocation \<Rightarrow> Bridge \<Rightarrow> nat \<Rightarrow> Bridge" where
  "discoverGPR check entry b index =
     (let nodeIndexInCheck = nodeIndex (m_gprInfo check ! index);
          b1 = (case nodeIndexInCheck of
                  Some n \<Rightarrow>
                    b \<lparr> checkNodeToRegisterMap :=
                          mapSet (checkNodeToRegisterMap b) n (createGPR (GPR index)) \<rparr>
                | None \<Rightarrow> b)
      in case nodeIndex (m_gprInfo entry ! index) of
           Some n \<Rightarrow>
             b1 \<lparr> entryNodeToRegisterMap :=
                    mapSet (entryNodeToRegisterMap b1) n (createGPR (GPR index)) \<rparr>
         | None \<Rightarrow>
             (if nodeIndexInCheck = None then b1 \<lparr> scratchGPR := Some (GPR index) \<rparr> else b1))"

definition discoverFPR :: "SpeculationCheck \<Rightarrow> EntryLocation \<Rightarrow> Bridge \<Rightarrow> nat \<Rightarrow> Bridge" where
  "discoverFPR check entry b index =
     (let nodeIndexInCheck = nodeIndex (m_fprInfo check ! index);
          b1 = (case nodeIndexInCheck of
                  Some n \<Rightarrow>
                    b \<lparr> checkNodeToRegisterMap :=
                          mapSet (checkNodeToRegisterMap b) n (createFPR (FPR index)) \<rparr>
                | None \<Rightarrow> b)
      in case nodeIndex (m_fprInfo entry ! index) of
           Some n \<Rightarrow>
             b1 \<lparr> entryNodeToRegisterMap :=
                    mapSet (entryNodeToRegisterMap b1) n (createFPR (FPR index)) \<rparr>
         | None \<Rightarrow>
             (if nodeIndexInCheck = None
              then (if scratchFPR1 b1 = None then b1 \<lparr> scratchFPR1 := Some (FPR index) \<rparr>
                    else b1 \<lparr> scratchFPR2 := Some (FPR index) \<rparr>)
              else b1))"

text \<open>Part 1: links between the registers of a node, and spills.\<close>

definition linkRegisters ::
  "Config \<Rightarrow> ShuffledRegister list \<Rightarrow> nat \<Rightarrow> GeneralizedRegister \<Rightarrow> ShuffledRegister list" where
  "linkRegisters cfg regs this target =
     (let regs1 = regs[this := (regs ! this) \<lparr> hasFrom := True \<rparr>];
          next = lookup cfg target
      in regs1[next := (regs1 ! next) \<lparr> previous := Some this, hasTo := True \<rparr>])"

definition spillGPR ::
  "(NodeIndex \<Rightarrow> Node) \<Rightarrow> SpeculationCheck \<Rightarrow> Bridge \<Rightarrow> nat \<Rightarrow> NodeIndex \<Rightarrow> Bridge" where
  "spillGPR graph check b index n =
     (if isSpilled (m_gprInfo check ! index) then b
      else emit b
             ((if format (m_gprInfo check ! index) = DataFormatInteger
               then [OrPtr TagTypeNumberRegister (GPR index)] else [])
              @ [StorePtr (GPR index) (AddressFor (virtualRegister (graph n)))]))"

definition linkGPR ::
  "Config \<Rightarrow> (NodeIndex \<Rightarrow> Node) \<Rightarrow> SpeculationCheck \<Rightarrow> EntryLocation \<Rightarrow> Bridge \<Rightarrow> nat
     \<Rightarrow> Bridge" where
  "linkGPR cfg graph check entry b index =
     (case nodeIndex (m_gprInfo check ! index) of
        None \<Rightarrow> b
      | Some n \<Rightarrow>
          (case mapFind (entryNodeToRegisterMap b) n of
             Some found \<Rightarrow>
               (let b1 = b \<lparr> shuffled := linkRegisters cfg (shuffled b) index (snd found) \<rparr>
                in if \<not> isSpilled (findInfo (snd found) entry) then b1
                   else spillGPR graph check b1 index n)
           | None \<Rightarrow>
               (let b1 = (if nodeIndex (m_gprInfo entry ! index) = None
                          then b \<lparr> scratchGPR := Some (GPR index) \<rparr> else b)
                in spillGPR graph check b1 index n)))"

definition borrowTagMaskRegister :: "Bridge \<Rightarrow> Bridge" where
  "borrowTagMaskRegister b =
     (if scratchGPR b = None
      then b \<lparr> scratchGPR := Some TagMaskRegister, needToRestoreTagMaskRegister := True \<rparr>
      else b)"

definition spillFPR ::
  "(NodeIndex \<Rightarrow> Node) \<Rightarrow> SpeculationCheck \<Rightarrow> GPRReg \<Rightarrow> Bridge \<Rightarrow> nat \<Rightarrow> NodeIndex
     \<Rightarrow> Bridge" where
  "spillFPR graph check scratch b index n =
     (if isSpilled (m_fprInfo check ! index) then b
      else emit b
             [MoveDoubleToPtr (FPR index) scratch,
              SubPtr TagTypeNumberRegister scratch,
              StorePtr scratch (AddressFor (virtualRegister (graph n)))])"

definition linkFPR ::
  "Config \<Rightarrow> (NodeIndex \<Rightarrow> Node) \<Rightarrow> SpeculationCheck \<Rightarrow> EntryLocation \<Rightarrow> GPRReg \<Rightarrow> Bridge
     \<Rightarrow> nat \<Rightarrow> Bridge" where
  "linkFPR cfg graph check entry scratch b index =
     (case nodeIndex (m_fprInfo check ! index) of
        None \<Rightarrow> b
      | Some n \<Rightarrow>
          (case mapFind (entryNodeToRegisterMap b) n of
             Some found \<Rightarrow>
               (let b1 = b \<lparr> shuffled := linkRegisters cfg (shuffled b)
                                           (numberOfGPRs cfg + index) (snd found) \<rparr>
                in if \<not> isSpilled (findInfo (snd found) entry) then b1
                   else spillFPR graph check scratch b1 index n)
           | None \<Rightarrow>
               (let b1 = (if nodeIndex (m_fprInfo entry ! index) = None
                          then (if scratchFPR1 b = None
                                then b \<lparr> scratchFPR1 := Some (FPR index) \<rparr>
                                else if scratchFPR2 b = None
                                        \<or> scratchFPR2 b \<noteq> registerZeroFPR cfg
                                     then b \<lparr> scratchFPR2 := Some (FPR index) \<rparr>
                                     else b)
                          else b)
                in spillFPR graph check scratch b1 index n)))"

text \<open>Part 2: the chains, then the cycles.\<close>

definition shuffleChain ::
  "SpeculationCheck \<Rightarrow> EntryLocation \<Rightarrow> Bridge \<Rightarrow> nat \<Rightarrow> Bridge option" where
  "shuffleChain check entry b index =
     (let r = shuffled b ! index
      in if \<not> isEndOfNonCyclingPermutation r \<or> handled r \<or> (\<not> hasFrom r \<and> \<not> hasTo r)
         then Some b
         else (case handleNonCyclingPermutation (length (shuffled b)) check entry (shuffled b)
                      index (scratchFPR1 b, scratchFPR2 b) of
                 None \<Rightarrow> None
               | Some (code, regs, scratch1, scratch2) \<Rightarrow>
                   Some (emit (b \<lparr> shuffled := regs, scratchFPR1 := scratch1,
                                   scratchFPR2 := scratch2 \<rparr>) code)))"

definition shuffleCycle ::
  "SpeculationCheck \<Rightarrow> EntryLocation \<Rightarrow> GPRReg \<Rightarrow> Bridge \<Rightarrow> nat \<Rightarrow> Bridge option" where
  "shuffleCycle check entry scratch b index =
     (let r = shuffled b ! index
      in if handled r \<or> (\<not> hasFrom r \<and> \<not> hasTo r)
         then Some b
         else (case handleCyclingPermutation (length (shuffled b)) check entry (shuffled b)
                      index scratch (scratchFPR1 b) (scratchFPR2 b) of
                 None \<Rightarrow> None
               | Some (code, regs) \<Rightarrow> Some (emit (b \<lparr> shuffled := regs \<rparr>) code)))"

fun foldOption :: "('s \<Rightarrow> 'a \<Rightarrow> 's option) \<Rightarrow> 's \<Rightarrow> 'a list \<Rightarrow> 's option" where
  "foldOption f s [] = Some s"
| "foldOption f s (x # xs) = (case f s x of None \<Rightarrow> None | Some s' \<Rightarrow> foldOption f s' xs)"

text \<open>Part 3: the fills, as the three helpers at the head of the file emit them.\<close>

definition fillNumericToDouble ::
  "(NodeIndex \<Rightarrow> Node) \<Rightarrow> NodeIndex \<Rightarrow> FPRReg \<Rightarrow> GPRReg \<Rightarrow> Instr list" where
  "fillNumericToDouble graph n f temporary =
     (if isConstant (graph n)
      then [MoveImmPtr (valueOfNumberConstant (graph n)) temporary,
            MovePtrToDouble temporary f]
      else [LoadPtr (AddressFor (virtualRegister (graph n))) temporary,
            BranchPtrAboveOrEqual temporary TagTypeNumberRegister IsInteger,
            UnboxDouble temporary f,
            JumpFwd HasUnboxedDouble,
            Link IsInteger,
            ConvertInt32ToDouble temporary f,
            Link HasUnboxedDouble])"

definition fillInt32ToInteger :: "(NodeIndex \<Rightarrow> Node) \<Rightarrow> NodeIndex \<Rightarrow> GPRReg \<Rightarrow> Instr list" where
  "fillInt32ToInteger graph n g =
     (if isConstant (graph n) then [MoveImm32 (valueOfInt32Constant (graph n)) g]
      else [Load32 (AddressFor (virtualRegister (graph n))) g])"

definition fillToJS :: "(NodeIndex \<Rightarrow> Node) \<Rightarrow> NodeIndex \<Rightarrow> GPRReg \<Rightarrow> Instr list" where
  "fillToJS graph n g =
     (if isConstant (graph n)
      then (if isInt32Constant (graph n)
            then [MoveImmPtr (TagTypeNumber OR ucast (valueOfInt32Constant (graph n))) g]
            else if isNumberConstant (graph n)
            then [MoveImmPtr (valueOfNumberConstant (graph n) + 0x1000000000000) g]
            else [MoveImmPtr (valueOfJSConstant (graph n)) g])
      else [LoadPtr (AddressFor (virtualRegister (graph n))) g])"

definition needsFill :: "SpeculationCheck \<Rightarrow> Bridge \<Rightarrow> NodeIndex \<Rightarrow> bool" where
  "needsFill check b n =
     (case mapFind (checkNodeToRegisterMap b) n of
        Some found \<Rightarrow> isSpilled (findInfo (snd found) check)
      | None \<Rightarrow> True)"

definition fillFPR ::
  "(NodeIndex \<Rightarrow> Node) \<Rightarrow> SpeculationCheck \<Rightarrow> EntryLocation \<Rightarrow> Bridge \<Rightarrow> nat \<Rightarrow> Bridge" where
  "fillFPR graph check entry b index =
     (case nodeIndex (m_fprInfo entry ! index) of
        None \<Rightarrow> b
      | Some n \<Rightarrow>
          (if isSpilled (m_fprInfo entry ! index) then b
           else if \<not> needsFill check b n then b
           else emit b (fillNumericToDouble graph n (FPR index) regT0)))"

definition fillGPR ::
  "(NodeIndex \<Rightarrow> Node) \<Rightarrow> SpeculationCheck \<Rightarrow> EntryLocation \<Rightarrow> Bridge \<Rightarrow> nat \<Rightarrow> Bridge" where
  "fillGPR graph check entry b index =
     (case nodeIndex (m_gprInfo entry ! index) of
        None \<Rightarrow> b
      | Some n \<Rightarrow>
          (if isSpilled (m_gprInfo entry ! index) then b
           else if \<not> needsFill check b n then b
           else if format (m_gprInfo entry ! index) = DataFormatInteger
                then emit b (fillInt32ToInteger graph n (GPR index))
                else emit b (fillToJS graph n (GPR index))))"

definition finishBridge :: "EntryLocation \<Rightarrow> Bridge \<Rightarrow> Bridge" where
  "finishBridge entry b =
     emit b ((if needToRestoreTagMaskRegister b then [MoveImmPtr TagMask TagMaskRegister]
              else [])
             @ [JumpTo (m_entry entry)])"

text \<open>The state after scratch discovery and the GPR half of part 1, tag mask borrowed.\<close>

definition bridgeAfterGPRs ::
  "Config \<Rightarrow> (NodeIndex \<Rightarrow> Node) \<Rightarrow> SpeculationCheck \<Rightarrow> EntryLocation
     \<Rightarrow> SpeculationRecovery option \<Rightarrow> Bridge" where
  "bridgeAfterGPRs cfg graph check entry recovery =
     (let b0 = bridgeInit cfg check recovery;
          b1 = foldl (discoverGPR check entry) b0 [0..<numberOfGPRs cfg];
          b2 = foldl (discoverFPR check entry) b1 [0..<numberOfFPRs cfg];
          b3 = foldl (linkGPR cfg graph check entry) b2 [0..<numberOfGPRs cfg]
      in borrowTagMaskRegister b3)"

definition jumpFromSpeculativeToNonSpeculative ::
  "Config \<Rightarrow> (NodeIndex \<Rightarrow> Node) \<Rightarrow> SpeculationCheck \<Rightarrow> EntryLocation
     \<Rightarrow> SpeculationRecovery option \<Rightarrow> Bridge option" where
  "jumpFromSpeculativeToNonSpeculative cfg graph check entry recovery =
     (let b4 = bridgeAfterGPRs cfg graph check entry recovery
      in case scratchGPR b4 of
           None \<Rightarrow> None
         | Some scratch \<Rightarrow>
             (let b5 = foldl (linkFPR cfg graph check entry scratch) b4 [0..<numberOfFPRs cfg]
              in case foldOption (shuffleChain check entry) b5
                        [0..<numberOfGPRs cfg + numberOfFPRs cfg] of
                   None \<Rightarrow> None
                 | Some b6 \<Rightarrow>
                     (case foldOption (shuffleCycle check entry scratch) b6
                             [0..<numberOfGPRs cfg + numberOfFPRs cfg] of
                        None \<Rightarrow> None
                      | Some b7 \<Rightarrow>
                          (let b8 = foldl (fillFPR graph check entry) b7 [0..<numberOfFPRs cfg];
                               b9 = foldl (fillGPR graph check entry) b8 [0..<numberOfGPRs cfg]
                           in Some (finishBridge entry b9)))))"

section \<open>Vocabulary of the specification\<close>

text \<open>A value recovery that is live in a physical register, and one that is displaced.\<close>

definition inRegister :: "ValueRecovery \<Rightarrow> bool" where
  "inRegister r =
     (case r of InGPR g \<Rightarrow> True | UnboxedInt32InGPR g \<Rightarrow> True | InFPR f \<Rightarrow> True | _ \<Rightarrow> False)"

definition isDisplaced :: "ValueRecovery \<Rightarrow> bool" where
  "isDisplaced r = (case r of DisplacedInRegisterFile v \<Rightarrow> True | _ \<Rightarrow> False)"

section \<open>Concrete inputs\<close>

text \<open>
  A platform with nine GPRs and six FPRs, a call-frame header of six slots with the
  code-block pointer in slot \<open>-1\<close>, and a baseline code block.
\<close>

definition examplePlatform :: Config where
  "examplePlatform =
     \<lparr> numberOfGPRs = 9, numberOfFPRs = 6, callFrameHeaderSize = 6, codeBlockSlot = - 1,
       alternative = 0x1000, counterValueForOptimizeAfterWarmUp = 0xFFFFFC18,
       jitCodeStart = 0x2000, registerZeroFPR = Some (FPR 0) \<rparr>"

text \<open>An exit with one argument in a GPR, whose last-set operand is variable 0.\<close>

definition lastSetExit :: OSRExit where
  "lastSetExit =
     \<lparr> m_arguments = [InGPR (GPR 2)], m_variables = [AlreadyInRegisterFile],
       m_lastSetOperand = 0, m_bytecodeIndex = 7 \<rparr>"

text \<open>A machine state to run emitted code from.\<close>

definition exampleMachine :: Machine where
  "exampleMachine =
     \<lparr> gprs = (\<lambda>g. 0)(GPR 1 := 0x1234, TagTypeNumberRegister := TagTypeNumber),
       fprs = (\<lambda>f. 0)(FPR 0 := 0x3FF8000000000000),
       registerFile = (\<lambda>v. 0)(0 := 0xAAAA, 1 := 0xBBBB),
       scratchBuffer = (\<lambda>i. 0),
       executeCounter = 0,
       jumpedTo = None \<rparr>"






text \<open>
  An exit with variable 0 in an FPR and variable 1 in a GPR, while the values of
  variables 2 and 3 are displaced in the slots of variables 0 and 1.
\<close>

definition poisonedExit :: OSRExit where
  "poisonedExit =
     \<lparr> m_arguments = [],
       m_variables = [InFPR (FPR 0), InGPR (GPR 1),
                      DisplacedInRegisterFile 0, DisplacedInRegisterFile 1],
       m_lastSetOperand = lastSetOperandNone, m_bytecodeIndex = 7 \<rparr>"

definition holds :: "NodeIndex \<Rightarrow> DataFormat \<Rightarrow> RegisterInfo" where
  "holds n f = \<lparr> nodeIndex = Some n, format = f, isSpilled = False \<rparr>"

text \<open>
  A bridge between register maps in which every FPR is in use on one side or the
  other: node 1 goes from FPR 0 to FPR 1, nodes 3 and 4 change places between FPR 2 and
  FPR 3, nodes 5 and 6 stay, and the entry wants the constant node 7 in FPR 0.
\<close>

definition clobberCheck :: SpeculationCheck where
  "clobberCheck =
     \<lparr> m_gprInfo = replicate 9 unusedRegister,
       m_fprInfo = [holds 1 DataFormatDouble, unusedRegister, holds 3 DataFormatDouble,
                    holds 4 DataFormatDouble, holds 5 DataFormatDouble,
                    holds 6 DataFormatDouble] \<rparr>"

definition clobberEntry :: EntryLocation where
  "clobberEntry =
     \<lparr> m_gprInfo = replicate 9 unusedRegister,
       m_fprInfo = [holds 7 DataFormatDouble, holds 1 DataFormatDouble,
                    holds 4 DataFormatDouble, holds 3 DataFormatDouble,
                    holds 5 DataFormatDouble, holds 6 DataFormatDouble],
       m_entry = 0x3000 \<rparr>"

definition clobberGraph :: "NodeIndex \<Rightarrow> Node" where
  "clobberGraph n =
     \<lparr> virtualRegister = int n, isConstant = (n = 7), isInt32Constant = False,
       isNumberConstant = (n = 7), valueOfInt32Constant = 0,
       valueOfNumberConstant = 0x4000000000000000, valueOfJSConstant = 0 \<rparr>"

definition clobberMachine :: Machine where
  "clobberMachine =
     \<lparr> gprs = (\<lambda>g. 0)(TagTypeNumberRegister := TagTypeNumber, TagMaskRegister := TagMask),
       fprs = (\<lambda>f. 0)(FPR 0 := 0x3FF0000000000000, FPR 2 := 0x4008000000000000,
                        FPR 3 := 0x4010000000000000, FPR 4 := 0x4014000000000000,
                        FPR 5 := 0x4018000000000000),
       registerFile = (\<lambda>v. 0),
       scratchBuffer = (\<lambda>i. 0),
       executeCounter = 0,
       jumpedTo = None \<rparr>"

section \<open>Vocabulary of the specification for the bridge\<close>

text \<open>
  Register maps of the right size, the nodes that an entry holds in some register, and
  the two ways a GPR can serve as scratch: unused on both sides, or unused at the entry
  while the value it holds at the exit goes to no register of the entry.
\<close>

definition wellSized :: "Config \<Rightarrow> 'a SpeculationCheck_scheme \<Rightarrow> bool" where
  "wellSized cfg maps =
     (length (m_gprInfo maps) = numberOfGPRs cfg \<and> length (m_fprInfo maps) = numberOfFPRs cfg)"

definition entryNodes :: "EntryLocation \<Rightarrow> NodeIndex set" where
  "entryNodes entry = {n. Some n \<in> nodeIndex ` set (m_gprInfo entry @ m_fprInfo entry)}"

definition freeOnBothSides :: "SpeculationCheck \<Rightarrow> EntryLocation \<Rightarrow> nat \<Rightarrow> bool" where
  "freeOnBothSides check entry index =
     (nodeIndex (m_gprInfo check ! index) = None \<and> nodeIndex (m_gprInfo entry ! index) = None)"

definition availableAsScratch :: "SpeculationCheck \<Rightarrow> EntryLocation \<Rightarrow> nat \<Rightarrow> bool" where
  "availableAsScratch check entry index =
     (nodeIndex (m_gprInfo entry ! index) = None \<and>
      (case nodeIndex (m_gprInfo check ! index) of
         None \<Rightarrow> True
       | Some n \<Rightarrow> n \<notin> entryNodes entry))"

text \<open>
  Identical register maps, and maps in which no node is in two registers.
\<close>

definition sameRegisterMaps :: "SpeculationCheck \<Rightarrow> EntryLocation \<Rightarrow> bool" where
  "sameRegisterMaps check entry =
     (m_gprInfo entry = m_gprInfo check \<and> m_fprInfo entry = m_fprInfo check)"

definition nodesOf :: "'a SpeculationCheck_scheme \<Rightarrow> NodeIndex list" where
  "nodesOf maps =
     concat (map (\<lambda>r. case nodeIndex r of Some n \<Rightarrow> [n] | None \<Rightarrow> [])
               (m_gprInfo maps @ m_fprInfo maps))"

definition uniqueNodes :: "'a SpeculationCheck_scheme \<Rightarrow> bool" where
  "uniqueNodes maps = distinct (nodesOf maps)"




section \<open>Auxiliary notions for the proofs about the bridge\<close>


text \<open>
  The tuples that the discovery loops append to a reverse map, and a GPR whose exit
  value is absent from the reverse map \<open>m\<close> of the entry while the entry leaves it unused.
\<close>

definition gprTuples :: "'a SpeculationCheck_scheme \<Rightarrow> nat list \<Rightarrow> NodeToRegisterMap" where
  "gprTuples maps idxs =
     concat (map (\<lambda>i. case nodeIndex (m_gprInfo maps ! i) of
                          Some n \<Rightarrow> [(n, createGPR (GPR i))] | None \<Rightarrow> []) idxs)"

definition fprTuples :: "'a SpeculationCheck_scheme \<Rightarrow> nat list \<Rightarrow> NodeToRegisterMap" where
  "fprTuples maps idxs =
     concat (map (\<lambda>i. case nodeIndex (m_fprInfo maps ! i) of
                          Some n \<Rightarrow> [(n, createFPR (FPR i))] | None \<Rightarrow> []) idxs)"

definition deadOnEntry ::
  "NodeToRegisterMap \<Rightarrow> SpeculationCheck \<Rightarrow> EntryLocation \<Rightarrow> nat \<Rightarrow> bool" where
  "deadOnEntry m check entry index =
     (nodeIndex (m_gprInfo entry ! index) = None \<and>
      (\<exists>n. nodeIndex (m_gprInfo check ! index) = Some n \<and> mapFind m n = None))"

text \<open>
  The register with a given number, and the shuffle of identical register maps: every
  register is linked to nothing or to itself.
\<close>

definition registerAt :: "Config \<Rightarrow> nat \<Rightarrow> GeneralizedRegister" where
  "registerAt cfg i =
     (if i < numberOfGPRs cfg then createGPR (GPR i) else createFPR (FPR (i - numberOfGPRs cfg)))"

definition selfLinked :: "Config \<Rightarrow> ShuffledRegister list \<Rightarrow> bool" where
  "selfLinked cfg regs =
     (length regs = numberOfGPRs cfg + numberOfFPRs cfg \<and>
      (\<forall>i < length regs.
         reg (regs ! i) = registerAt cfg i \<and>
         ((\<not> hasFrom (regs ! i) \<and> \<not> hasTo (regs ! i)) \<or>
          (previous (regs ! i) = Some i \<and> hasFrom (regs ! i) \<and> hasTo (regs ! i)))))"

section \<open>Concrete inputs for the bridge\<close>

text \<open>A graph without constants, in which node \<open>n\<close> has virtual register \<open>n\<close>.\<close>

definition plainGraph :: "NodeIndex \<Rightarrow> Node" where
  "plainGraph n =
     \<lparr> virtualRegister = int n, isConstant = False, isInt32Constant = False,
       isNumberConstant = False, valueOfInt32Constant = 0, valueOfNumberConstant = 0,
       valueOfJSConstant = 0 \<rparr>"


definition integerCheck :: SpeculationCheck where
  "integerCheck =
     \<lparr> m_gprInfo = [holds 1 DataFormatInteger, holds 2 DataFormatInteger]
                     @ replicate 7 unusedRegister,
       m_fprInfo = replicate 6 unusedRegister \<rparr>"

definition integerEntry :: EntryLocation where
  "integerEntry =
     \<lparr> m_gprInfo = [holds 1 DataFormatInteger, holds 2 DataFormatInteger]
                     @ replicate 7 unusedRegister,
       m_fprInfo = replicate 6 unusedRegister,
       m_entry = 0x3000 \<rparr>"

text \<open>
  All nine GPRs occupied at the exit; an entry with the same map, and an entry that
  leaves GPR 0 unused, so that node 1 in GPR 0 is dead.
\<close>

definition occupiedCheck :: SpeculationCheck where
  "occupiedCheck =
     \<lparr> m_gprInfo = map (\<lambda>i. holds (i + 1) DataFormatJS) [0..<9],
       m_fprInfo = replicate 6 unusedRegister \<rparr>"

definition occupiedEntry :: EntryLocation where
  "occupiedEntry =
     \<lparr> m_gprInfo = map (\<lambda>i. holds (i + 1) DataFormatJS) [0..<9],
       m_fprInfo = replicate 6 unusedRegister,
       m_entry = 0x3000 \<rparr>"








section \<open>Properties of the OSR exit\<close>

lemma recoveries_upt:
  "map (valueRecovery exit) [0..<numberOfRecoveries exit] = m_arguments exit @ m_variables exit"
  by (rule nth_equalityI) (auto simp: numberOfRecoveries_def valueRecovery_def nth_append)

lemma poison_fields:
  "numberOfDisplacedVirtualRegisters (poison c v) = numberOfDisplacedVirtualRegisters c"
  "haveUnboxedInt32s (poison c v) = haveUnboxedInt32s c"
  "haveFPRs (poison c v) = haveFPRs c"
  "haveConstants (poison c v) = haveConstants c"
  "haveUndefined (poison c v) = haveUndefined c"
  "length (poisonedVirtualRegisters (poison c v)) = length (poisonedVirtualRegisters c)"
  by (simp_all add: poison_def)

lemma poison_flags:
  "v < length (poisonedVirtualRegisters c) \<Longrightarrow>
   poisonedVirtualRegisters (poison c v) = (poisonedVirtualRegisters c)[v := True]"
proof (cases "poisonedVirtualRegisters c ! v")
  case True
  then have "(poisonedVirtualRegisters c)[v := True] = poisonedVirtualRegisters c"
    by (metis list_update_id)
  with True show ?thesis by (simp add: poison_def)
next
  case False
  then show ?thesis by (simp add: poison_def)
qed

lemma count_true_update:
  assumes "v < length p"
  shows "length (filter (\<lambda>b. b) (p[v := True])) =
           (if p ! v then length (filter (\<lambda>b. b) p) else length (filter (\<lambda>b. b) p) + 1)"
  using assms
proof (induction p arbitrary: v)
  case Nil
  then show ?case by simp
next
  case (Cons a p)
  then show ?case by (cases v) auto
qed

lemma poison_count:
  "v < length (poisonedVirtualRegisters c) \<Longrightarrow>
   numberOfPoisonedVirtualRegisters c = length (filter (\<lambda>b. b) (poisonedVirtualRegisters c)) \<Longrightarrow>
   numberOfPoisonedVirtualRegisters (poison c v) =
     length (filter (\<lambda>b. b) (poisonedVirtualRegisters (poison c v)))"
  by (simp add: poison_def count_true_update)

lemma classify_displaced_count:
  "numberOfDisplacedVirtualRegisters (foldl (classifyStep exit) c idxs) =
     numberOfDisplacedVirtualRegisters c
       + length (filter (\<lambda>i. isDisplaced (valueRecovery exit i)) idxs)"
  by (induction idxs arbitrary: c)
     (auto simp: classifyStep_def isDisplaced_def Let_def poison_fields split: ValueRecovery.splits)

lemma classify_length:
  "length (poisonedVirtualRegisters (foldl (classifyStep exit) c idxs)) =
     length (poisonedVirtualRegisters c)"
  by (induction idxs arbitrary: c)
     (auto simp: classifyStep_def Let_def poison_fields split: ValueRecovery.splits)

lemma classify_poisoned_count:
  "length (poisonedVirtualRegisters c) = length (m_variables exit) \<Longrightarrow>
   numberOfPoisonedVirtualRegisters c = length (filter (\<lambda>b. b) (poisonedVirtualRegisters c)) \<Longrightarrow>
   numberOfPoisonedVirtualRegisters (foldl (classifyStep exit) c idxs) =
     length (filter (\<lambda>b. b) (poisonedVirtualRegisters (foldl (classifyStep exit) c idxs)))"
proof (induction idxs arbitrary: c)
  case Nil
  then show ?case by simp
next
  case (Cons i idxs)
  have "length (poisonedVirtualRegisters (classifyStep exit c i)) = length (m_variables exit)"
    using Cons.prems(1)
    by (auto simp: classifyStep_def Let_def poison_fields split: ValueRecovery.splits)
  moreover have "numberOfPoisonedVirtualRegisters (classifyStep exit c i) =
      length (filter (\<lambda>b. b) (poisonedVirtualRegisters (classifyStep exit c i)))"
    using Cons.prems
    by (auto simp: classifyStep_def Let_def poison_count split: ValueRecovery.splits)
  ultimately show ?case using Cons.IH by simp
qed

lemma classify_poisoned_flags:
  "length (poisonedVirtualRegisters c) = length (m_variables exit) \<Longrightarrow>
   v < length (m_variables exit) \<Longrightarrow>
   poisonedVirtualRegisters (foldl (classifyStep exit) c idxs) ! v =
     (poisonedVirtualRegisters c ! v \<or>
      (inRegister (m_variables exit ! v) \<and>
       (\<exists>i \<in> set idxs. valueRecovery exit i = DisplacedInRegisterFile v)))"
proof (induction idxs arbitrary: c)
  case Nil
  then show ?case by simp
next
  case (Cons i idxs)
  have len: "length (poisonedVirtualRegisters (classifyStep exit c i)) = length (m_variables exit)"
    using Cons.prems(1)
    by (auto simp: classifyStep_def Let_def poison_fields split: ValueRecovery.splits)
  have step: "poisonedVirtualRegisters (classifyStep exit c i) ! v =
     (poisonedVirtualRegisters c ! v \<or>
      (inRegister (m_variables exit ! v) \<and> valueRecovery exit i = DisplacedInRegisterFile v))"
    using Cons.prems
    by (auto simp: classifyStep_def Let_def poison_flags inRegister_def nth_list_update
             split: ValueRecovery.splits)
  show ?case using Cons.IH[OF len Cons.prems(2)] step by auto
qed

lemma count_true_card:
  "length (filter (\<lambda>b. b) p) = card {v. v < length p \<and> p ! v}"
  by (simp add: length_filter_conv_card)

lemma classified_length:
  "length (poisonedVirtualRegisters (classify exit)) = length (m_variables exit)"
  by (simp add: classify_def classify_length classifyInit_def)

lemma classified_flags:
  assumes "v < length (m_variables exit)"
  shows "poisonedVirtualRegisters (classify exit) ! v =
           (inRegister (m_variables exit ! v) \<and>
            DisplacedInRegisterFile v \<in> set (m_arguments exit @ m_variables exit))"
proof -
  let ?n = "numberOfRecoveries exit"
  have set_rec: "set (m_arguments exit @ m_variables exit) = valueRecovery exit ` set [0..<?n]"
    using recoveries_upt[of exit, symmetric] by (metis set_map)
  have "(\<exists>i \<in> set [0..<?n]. valueRecovery exit i = DisplacedInRegisterFile v) =
        (DisplacedInRegisterFile v \<in> set (m_arguments exit @ m_variables exit))"
    unfolding set_rec by (auto simp: image_iff) (metis atLeastLessThan_iff zero_le)
  moreover have "\<not> poisonedVirtualRegisters (classifyInit exit) ! v"
    using assms by (simp add: classifyInit_def)
  moreover have "length (poisonedVirtualRegisters (classifyInit exit)) = length (m_variables exit)"
    by (simp add: classifyInit_def)
  ultimately show ?thesis
    using classify_poisoned_flags[of "classifyInit exit" exit v "[0..<?n]"] assms
    unfolding classify_def by simp
qed

lemma classified_poisoned_count:
  "numberOfPoisonedVirtualRegisters (classify exit) =
     length (filter (\<lambda>b. b) (poisonedVirtualRegisters (classify exit)))"
  unfolding classify_def
  by (rule classify_poisoned_count) (simp_all add: classifyInit_def)

lemma classified_displaced_count:
  "numberOfDisplacedVirtualRegisters (classify exit) =
     length (filter isDisplaced (m_arguments exit @ m_variables exit))"
proof -
  let ?n = "numberOfRecoveries exit"
  have "numberOfDisplacedVirtualRegisters (classify exit) =
      length (filter (\<lambda>i. isDisplaced (valueRecovery exit i)) [0..<?n])"
    by (simp add: classify_def classify_displaced_count classifyInit_def)
  also have "\<dots> = length (filter isDisplaced (map (valueRecovery exit) [0..<?n]))"
    by (simp add: filter_map comp_def)
  finally show ?thesis by (simp add: recoveries_upt)
qed

text \<open>
  C5. The scratch buffer that the OSR exit asks for has one slot for every variable that
  is live in a register (InGPR, UnboxedInt32InGPR or InFPR) and is the source of some
  displaced recovery, each such variable counted once, plus one slot for every displaced
  recovery when there are more of them than GPRs, and none for them otherwise.
\<close>

theorem scratchBufferSlots_count:
  "scratchBufferSlots cfg exit =
     card {v. v < length (m_variables exit) \<and> inRegister (m_variables exit ! v) \<and>
              DisplacedInRegisterFile v \<in> set (m_arguments exit @ m_variables exit)}
     + (let displaced = length (filter isDisplaced (m_arguments exit @ m_variables exit))
        in if displaced > numberOfGPRs cfg then displaced else 0)"
proof -
  let ?c = "classify exit"
  have "numberOfPoisonedVirtualRegisters ?c =
          card {v. v < length (m_variables exit) \<and> poisonedVirtualRegisters ?c ! v}"
    by (simp add: classified_poisoned_count count_true_card classified_length)
  also have "{v. v < length (m_variables exit) \<and> poisonedVirtualRegisters ?c ! v} =
     {v. v < length (m_variables exit) \<and> inRegister (m_variables exit ! v) \<and>
              DisplacedInRegisterFile v \<in> set (m_arguments exit @ m_variables exit)}"
    using classified_flags by auto
  finally have p: "numberOfPoisonedVirtualRegisters ?c =
     card {v. v < length (m_variables exit) \<and> inRegister (m_variables exit ! v) \<and>
              DisplacedInRegisterFile v \<in> set (m_arguments exit @ m_variables exit)}" .
  show ?thesis
    unfolding scratchBufferSlots_def Let_def p classified_displaced_count by auto
qed





lemma run_append:
  "run (xs @ ys) s = (case run xs s of None \<Rightarrow> None | Some s' \<Rightarrow> run ys s')"
  by (induction xs arbitrary: s) (auto split: option.splits)

text \<open>
  C10. The code of an OSR exit is the steps before it, then the load of the last-set
  operand's home slot into the cached result register exactly when \<^verbatim>\<open>m_lastSetOperand\<close>
  is not the largest \<^verbatim>\<open>int\<close>, then the call-frame fix and the jump. Run to its end, the
  code leaves in the cached result register the content of that slot when the load is
  emitted, and what the preceding steps left there when it is not.
\<close>

theorem lastSetOperand_load:
  assumes "exitSpeculativeWithOSR cfg exit recovery decodedCodeMap = Some code"
  shows "(\<exists>jumpTarget. code =
            osrBeforeLastSet cfg exit recovery
            @ (if m_lastSetOperand exit \<noteq> 2 ^ 31 - 1
               then [LoadPtr (AddressFor (m_lastSetOperand exit)) cachedResultRegister] else [])
            @ [StorePtrImm (alternative cfg) (AddressFor (codeBlockSlot cfg)),
               MoveImmPtr jumpTarget regT1, JumpReg regT1])
         \<and> (\<forall>s s1. run (osrBeforeLastSet cfg exit recovery) s = Some s1 \<longrightarrow>
               (\<exists>s2. run code s = Some s2 \<and>
                  gprs s2 cachedResultRegister =
                    (if m_lastSetOperand exit \<noteq> 2 ^ 31 - 1
                     then registerFile s1 (m_lastSetOperand exit)
                     else gprs s1 cachedResultRegister)))"
proof -
  from assms obtain jumpTarget where
    code: "code = osrBeforeLastSet cfg exit recovery @ loadLastSetOperand exit
             @ [StorePtrImm (alternative cfg) (AddressFor (codeBlockSlot cfg))]
             @ [MoveImmPtr jumpTarget regT1, JumpReg regT1]"
    by (auto simp: exitSpeculativeWithOSR_def split: option.splits)
  have shape: "code = osrBeforeLastSet cfg exit recovery
            @ (if m_lastSetOperand exit \<noteq> 2 ^ 31 - 1
               then [LoadPtr (AddressFor (m_lastSetOperand exit)) cachedResultRegister] else [])
            @ [StorePtrImm (alternative cfg) (AddressFor (codeBlockSlot cfg)),
               MoveImmPtr jumpTarget regT1, JumpReg regT1]"
    by (simp add: code loadLastSetOperand_def lastSetOperandNone_def)
  have sem: "\<exists>s2. run code s = Some s2 \<and>
                  gprs s2 cachedResultRegister =
                    (if m_lastSetOperand exit \<noteq> 2 ^ 31 - 1
                     then registerFile s1 (m_lastSetOperand exit)
                     else gprs s1 cachedResultRegister)"
    if "run (osrBeforeLastSet cfg exit recovery) s = Some s1" for s s1
    using that
    by (simp add: shape run_append setGPR_def storeTo_def loadFrom_def
                  cachedResultRegister_def regT0_def regT1_def)
  show ?thesis using shape sem by blast
qed

theorem lastSetOperand_load_witness:
  "exitSpeculativeWithOSR examplePlatform lastSetExit None [(7, 64)] =
     Some [StorePtr (GPR 2) (AddressFor (- 7)), Store32Imm 0xFFFFFC18 ExecuteCounter,
           LoadPtr (AddressFor 0) (GPR 0), StorePtrImm 0x1000 (AddressFor (- 1)),
           MoveImmPtr 0x2040 (GPR 1), JumpReg (GPR 1)]
   \<and> (\<exists>s1 s2.
         run (osrBeforeLastSet examplePlatform lastSetExit None) exampleMachine = Some s1
       \<and> run [StorePtr (GPR 2) (AddressFor (- 7)), Store32Imm 0xFFFFFC18 ExecuteCounter,
               LoadPtr (AddressFor 0) (GPR 0), StorePtrImm 0x1000 (AddressFor (- 1)),
               MoveImmPtr 0x2040 (GPR 1), JumpReg (GPR 1)] exampleMachine = Some s2
       \<and> gprs s2 cachedResultRegister = registerFile s1 0)"
proof -
  have h: "exitSpeculativeWithOSR examplePlatform lastSetExit None [(7, 64)] =
     Some [StorePtr (GPR 2) (AddressFor (- 7)), Store32Imm 0xFFFFFC18 ExecuteCounter,
           LoadPtr (AddressFor 0) (GPR 0), StorePtrImm 0x1000 (AddressFor (- 1)),
           MoveImmPtr 0x2040 (GPR 1), JumpReg (GPR 1)]"
    by code_simp
  have b: "osrBeforeLastSet examplePlatform lastSetExit None =
     [StorePtr (GPR 2) (AddressFor (- 7)), Store32Imm 0xFFFFFC18 ExecuteCounter]"
    by code_simp
  obtain s1 where
    s1: "run (osrBeforeLastSet examplePlatform lastSetExit None) exampleMachine = Some s1"
    by (simp add: b)
  have l: "m_lastSetOperand lastSetExit = 0"
    by (simp add: lastSetExit_def)
  from lastSetOperand_load[OF h] s1 obtain s2 where
    "run [StorePtr (GPR 2) (AddressFor (- 7)), Store32Imm 0xFFFFFC18 ExecuteCounter,
          LoadPtr (AddressFor 0) (GPR 0), StorePtrImm 0x1000 (AddressFor (- 1)),
          MoveImmPtr 0x2040 (GPR 1), JumpReg (GPR 1)] exampleMachine = Some s2"
    "gprs s2 cachedResultRegister = registerFile s1 0"
    unfolding l by fastforce
  with h s1 show ?thesis by blast
qed

subsection \<open>Displaced virtual registers\<close>






























section \<open>Value preservation and non-destruction\<close>

text \<open>
  C1. The OSR exit does not preserve every value. Steps 5 and 7 save the poisoned GPRs
  to the scratch buffer first and the poisoned FPRs after them, and step 9 reads the
  scratch buffer back in the order of the variables. At \<open>poisonedExit\<close> variable 0 is in
  FPR 0 and variable 1 in GPR 1, both poisoned: the emitted code, run from
  \<open>exampleMachine\<close>, leaves the content of GPR 1 in the home slot of variable 0 and the
  boxed content of FPR 0 in the home slot of variable 1, and the two differ.
\<close>

theorem osr_exit_exchanges_poisoned_values:
  "\<exists>code s'.
      exitSpeculativeWithOSR examplePlatform poisonedExit None [(7, 64)] = Some code
    \<and> code =
        [StorePtr (GPR 1) (ScratchBuffer 0), BoxDouble (FPR 0) (GPR 0),
         StorePtr (GPR 0) (ScratchBuffer 1), LoadPtr (AddressFor 0) (GPR 0),
         LoadPtr (AddressFor 1) (GPR 1), StorePtr (GPR 0) (AddressFor 2),
         StorePtr (GPR 1) (AddressFor 3), LoadPtr (ScratchBuffer 0) (GPR 0),
         StorePtr (GPR 0) (AddressFor 0), LoadPtr (ScratchBuffer 1) (GPR 0),
         StorePtr (GPR 0) (AddressFor 1), Store32Imm 0xFFFFFC18 ExecuteCounter,
         StorePtrImm 0x1000 (AddressFor (- 1)), MoveImmPtr 0x2040 (GPR 1),
         JumpReg (GPR 1)]
    \<and> run code exampleMachine = Some s'
    \<and> registerFile s' 0 = gprs exampleMachine (GPR 1)
    \<and> registerFile s' 1 = fprs exampleMachine (FPR 0) - TagTypeNumber
    \<and> gprs exampleMachine (GPR 1) \<noteq> fprs exampleMachine (FPR 0) - TagTypeNumber"
proof -
  have code: "exitSpeculativeWithOSR examplePlatform poisonedExit None [(7, 64)] =
     Some [StorePtr (GPR 1) (ScratchBuffer 0), BoxDouble (FPR 0) (GPR 0),
         StorePtr (GPR 0) (ScratchBuffer 1), LoadPtr (AddressFor 0) (GPR 0),
         LoadPtr (AddressFor 1) (GPR 1), StorePtr (GPR 0) (AddressFor 2),
         StorePtr (GPR 1) (AddressFor 3), LoadPtr (ScratchBuffer 0) (GPR 0),
         StorePtr (GPR 0) (AddressFor 0), LoadPtr (ScratchBuffer 1) (GPR 0),
         StorePtr (GPR 0) (AddressFor 1), Store32Imm 0xFFFFFC18 ExecuteCounter,
         StorePtrImm 0x1000 (AddressFor (- 1)), MoveImmPtr 0x2040 (GPR 1),
         JumpReg (GPR 1)]"
    by code_simp
  show ?thesis
    unfolding code
    by (simp add: exampleMachine_def setFPR_def setGPR_def storeTo_def loadFrom_def
                  TagTypeNumber_def)
qed

text \<open>
  C2. The shuffler overwrites a register that holds a live value. At \<open>clobberCheck\<close> and
  \<open>clobberEntry\<close> the chain moves FPR 0 to FPR 1 and, having no scratch FPR yet, records
  FPR 1, the register it has just written, as the first scratch FPR; the swap of FPR 2
  and FPR 3 then goes through FPR 1. After the fill of FPR 0, the value that node 1 had
  in FPR 0 is in no FPR, no GPR and no slot, and FPR 1, where the entry expects it,
  holds the value of node 3.
\<close>

theorem chain_scratch_clobbers_live_value:
  "\<exists>b s'.
      jumpFromSpeculativeToNonSpeculative examplePlatform clobberGraph clobberCheck
        clobberEntry None = Some b
    \<and> emitted b =
        [MoveDouble (FPR 0) (FPR 1), MoveDouble (FPR 2) (FPR 1),
         MoveDouble (FPR 3) (FPR 2), MoveDouble (FPR 1) (FPR 3),
         MoveImmPtr 0x4000000000000000 (GPR 0), MovePtrToDouble (GPR 0) (FPR 0),
         JumpTo 0x3000]
    \<and> fprs clobberMachine (FPR 0) = 0x3FF0000000000000
    \<and> run (emitted b) clobberMachine = Some s'
    \<and> fprs s' = (\<lambda>f. 0)(FPR 0 := 0x4000000000000000, FPR 1 := 0x4008000000000000,
                          FPR 2 := 0x4010000000000000, FPR 3 := 0x4008000000000000,
                          FPR 4 := 0x4014000000000000, FPR 5 := 0x4018000000000000)
    \<and> gprs s' = (\<lambda>g. 0)(TagTypeNumberRegister := TagTypeNumber, TagMaskRegister := TagMask,
                          GPR 0 := 0x4000000000000000)
    \<and> registerFile s' = (\<lambda>v. 0)
    \<and> fprs s' (FPR 1) = fprs clobberMachine (FPR 2)"
proof -
  have code: "map_option emitted
      (jumpFromSpeculativeToNonSpeculative examplePlatform clobberGraph clobberCheck
         clobberEntry None) =
     Some [MoveDouble (FPR 0) (FPR 1), MoveDouble (FPR 2) (FPR 1),
         MoveDouble (FPR 3) (FPR 2), MoveDouble (FPR 1) (FPR 3),
         MoveImmPtr 0x4000000000000000 (GPR 0), MovePtrToDouble (GPR 0) (FPR 0),
         JumpTo 0x3000]"
    by code_simp
  then obtain b where
    b: "jumpFromSpeculativeToNonSpeculative examplePlatform clobberGraph clobberCheck
          clobberEntry None = Some b"
    and e: "emitted b =
        [MoveDouble (FPR 0) (FPR 1), MoveDouble (FPR 2) (FPR 1),
         MoveDouble (FPR 3) (FPR 2), MoveDouble (FPR 1) (FPR 3),
         MoveImmPtr 0x4000000000000000 (GPR 0), MovePtrToDouble (GPR 0) (FPR 0),
         JumpTo 0x3000]"
    by auto
  have "\<exists>s'. run (emitted b) clobberMachine = Some s'
    \<and> fprs s' = (\<lambda>f. 0)(FPR 0 := 0x4000000000000000, FPR 1 := 0x4008000000000000,
                          FPR 2 := 0x4010000000000000, FPR 3 := 0x4008000000000000,
                          FPR 4 := 0x4014000000000000, FPR 5 := 0x4018000000000000)
    \<and> gprs s' = (\<lambda>g. 0)(TagTypeNumberRegister := TagTypeNumber, TagMaskRegister := TagMask,
                          GPR 0 := 0x4000000000000000)
    \<and> registerFile s' = (\<lambda>v. 0)
    \<and> fprs s' (FPR 1) = fprs clobberMachine (FPR 2)"
    unfolding e
    by (auto simp: clobberMachine_def setFPR_def setGPR_def fun_eq_iff)
  moreover have "fprs clobberMachine (FPR 0) = 0x3FF0000000000000"
    by (simp add: clobberMachine_def)
  ultimately show ?thesis using b e by blast
qed

section \<open>Properties of the bridge\<close>

subsection \<open>What each step of the bridge leaves alone\<close>

lemma emit_fields [simp]:
  "checkNodeToRegisterMap (emit b code) = checkNodeToRegisterMap b"
  "entryNodeToRegisterMap (emit b code) = entryNodeToRegisterMap b"
  "scratchGPR (emit b code) = scratchGPR b"
  "scratchFPR1 (emit b code) = scratchFPR1 b"
  "scratchFPR2 (emit b code) = scratchFPR2 b"
  "needToRestoreTagMaskRegister (emit b code) = needToRestoreTagMaskRegister b"
  "shuffled (emit b code) = shuffled b"
  "emitted (emit b code) = emitted b @ code"
  by (simp_all add: emit_def)

lemma discoverGPR_fields:
  "needToRestoreTagMaskRegister (discoverGPR check entry b i) = needToRestoreTagMaskRegister b"
  "shuffled (discoverGPR check entry b i) = shuffled b"
  "emitted (discoverGPR check entry b i) = emitted b"
  "scratchFPR1 (discoverGPR check entry b i) = scratchFPR1 b"
  "scratchFPR2 (discoverGPR check entry b i) = scratchFPR2 b"
  by (simp_all add: discoverGPR_def Let_def split: option.splits)

lemma discoverFPR_fields:
  "needToRestoreTagMaskRegister (discoverFPR check entry b i) = needToRestoreTagMaskRegister b"
  "shuffled (discoverFPR check entry b i) = shuffled b"
  "emitted (discoverFPR check entry b i) = emitted b"
  "scratchGPR (discoverFPR check entry b i) = scratchGPR b"
  by (simp_all add: discoverFPR_def Let_def split: option.splits)

lemma foldl_invariant:
  "P b \<Longrightarrow> (\<And>b i. P b \<Longrightarrow> P (f b i)) \<Longrightarrow> P (foldl f b idxs)"
  by (induction idxs arbitrary: b) auto

lemma foldl_field:
  "(\<And>b i. g (f b i) = g b) \<Longrightarrow> g (foldl f b idxs) = g b"
  by (induction idxs arbitrary: b) auto


lemma spillGPR_fields:
  "checkNodeToRegisterMap (spillGPR graph check b i n) = checkNodeToRegisterMap b"
  "entryNodeToRegisterMap (spillGPR graph check b i n) = entryNodeToRegisterMap b"
  "scratchGPR (spillGPR graph check b i n) = scratchGPR b"
  "scratchFPR1 (spillGPR graph check b i n) = scratchFPR1 b"
  "scratchFPR2 (spillGPR graph check b i n) = scratchFPR2 b"
  "needToRestoreTagMaskRegister (spillGPR graph check b i n) = needToRestoreTagMaskRegister b"
  "shuffled (spillGPR graph check b i n) = shuffled b"
  by (simp_all add: spillGPR_def)


lemma linkGPR_fields:
  "checkNodeToRegisterMap (linkGPR cfg graph check entry b i) = checkNodeToRegisterMap b"
  "entryNodeToRegisterMap (linkGPR cfg graph check entry b i) = entryNodeToRegisterMap b"
  "needToRestoreTagMaskRegister (linkGPR cfg graph check entry b i) = needToRestoreTagMaskRegister b"
  by (simp_all add: linkGPR_def Let_def spillGPR_fields split: option.splits)




















subsection \<open>The recovery pre-pass\<close>





subsection \<open>Scratch discovery\<close>

lemma mapFind_None: "(mapFind m n = None) = (n \<notin> fst ` set m)"
  by (auto simp: mapFind_def find_None_iff image_iff)

lemma entryMap_discoverGPR:
  "entryNodeToRegisterMap (foldl (discoverGPR check entry) b idxs) =
     entryNodeToRegisterMap b
       @ concat (map (\<lambda>i. case nodeIndex (m_gprInfo entry ! i) of
                             Some n \<Rightarrow> [(n, createGPR (GPR i))] | None \<Rightarrow> []) idxs)"
  by (induction idxs arbitrary: b)
     (auto simp: discoverGPR_def mapSet_def Let_def split: option.splits)

lemma entryMap_discoverFPR:
  "entryNodeToRegisterMap (foldl (discoverFPR check entry) b idxs) =
     entryNodeToRegisterMap b
       @ concat (map (\<lambda>i. case nodeIndex (m_fprInfo entry ! i) of
                             Some n \<Rightarrow> [(n, createFPR (FPR i))] | None \<Rightarrow> []) idxs)"
  by (induction idxs arbitrary: b)
     (auto simp: discoverFPR_def mapSet_def Let_def split: option.splits)

lemma checkMap_discoverGPR:
  "checkNodeToRegisterMap (foldl (discoverGPR check entry) b idxs) =
     checkNodeToRegisterMap b
       @ concat (map (\<lambda>i. case nodeIndex (m_gprInfo check ! i) of
                             Some n \<Rightarrow> [(n, createGPR (GPR i))] | None \<Rightarrow> []) idxs)"
  by (induction idxs arbitrary: b)
     (auto simp: discoverGPR_def mapSet_def Let_def split: option.splits)

lemma checkMap_discoverFPR:
  "checkNodeToRegisterMap (foldl (discoverFPR check entry) b idxs) =
     checkNodeToRegisterMap b
       @ concat (map (\<lambda>i. case nodeIndex (m_fprInfo check ! i) of
                             Some n \<Rightarrow> [(n, createFPR (FPR i))] | None \<Rightarrow> []) idxs)"
  by (induction idxs arbitrary: b)
     (auto simp: discoverFPR_def mapSet_def Let_def split: option.splits)

lemma discovered_maps:
  "entryNodeToRegisterMap
     (foldl (discoverFPR check entry)
        (foldl (discoverGPR check entry) (bridgeInit cfg check recovery) [0..<numberOfGPRs cfg])
        [0..<numberOfFPRs cfg]) =
     gprTuples entry [0..<numberOfGPRs cfg] @ fprTuples entry [0..<numberOfFPRs cfg]"
  "checkNodeToRegisterMap
     (foldl (discoverFPR check entry)
        (foldl (discoverGPR check entry) (bridgeInit cfg check recovery) [0..<numberOfGPRs cfg])
        [0..<numberOfFPRs cfg]) =
     gprTuples check [0..<numberOfGPRs cfg] @ fprTuples check [0..<numberOfFPRs cfg]"
  by (simp_all add: entryMap_discoverGPR entryMap_discoverFPR checkMap_discoverGPR
        checkMap_discoverFPR bridgeInit_def gprTuples_def fprTuples_def)

lemma gprTuples_Cons:
  "gprTuples maps (i # idxs) =
     (case nodeIndex (m_gprInfo maps ! i) of
        Some n \<Rightarrow> [(n, createGPR (GPR i))] | None \<Rightarrow> []) @ gprTuples maps idxs"
  by (simp add: gprTuples_def)

lemma fprTuples_Cons:
  "fprTuples maps (i # idxs) =
     (case nodeIndex (m_fprInfo maps ! i) of
        Some n \<Rightarrow> [(n, createFPR (FPR i))] | None \<Rightarrow> []) @ fprTuples maps idxs"
  by (simp add: fprTuples_def)

lemma gprTuples_keys:
  "fst ` set (gprTuples maps idxs) = {n. \<exists>i \<in> set idxs. nodeIndex (m_gprInfo maps ! i) = Some n}"
proof (induction idxs)
  case Nil
  then show ?case by (simp add: gprTuples_def)
next
  case (Cons i idxs)
  show ?case
    by (cases "nodeIndex (m_gprInfo maps ! i)") (auto simp: gprTuples_Cons Cons.IH image_Un)
qed

lemma fprTuples_keys:
  "fst ` set (fprTuples maps idxs) = {n. \<exists>i \<in> set idxs. nodeIndex (m_fprInfo maps ! i) = Some n}"
proof (induction idxs)
  case Nil
  then show ?case by (simp add: fprTuples_def)
next
  case (Cons i idxs)
  show ?case
    by (cases "nodeIndex (m_fprInfo maps ! i)") (auto simp: fprTuples_Cons Cons.IH image_Un)
qed

lemma nodes_of_list:
  assumes "length xs = N"
  shows "{n. \<exists>i \<in> set [0..<N]. nodeIndex (xs ! i) = Some n} = {n. Some n \<in> nodeIndex ` set xs}"
proof (intro set_eqI iffI)
  fix n assume "n \<in> {n. \<exists>i \<in> set [0..<N]. nodeIndex (xs ! i) = Some n}"
  then obtain i where "i < N" "nodeIndex (xs ! i) = Some n" by auto
  then have "xs ! i \<in> set xs" using assms by simp
  with \<open>nodeIndex (xs ! i) = Some n\<close> show "n \<in> {n. Some n \<in> nodeIndex ` set xs}"
    by (metis (mono_tags, lifting) image_eqI mem_Collect_eq)
next
  fix n assume "n \<in> {n. Some n \<in> nodeIndex ` set xs}"
  then obtain x where "x \<in> set xs" "nodeIndex x = Some n" by (auto simp: image_iff)
  then obtain i where "i < length xs" "xs ! i = x" by (auto simp: in_set_conv_nth)
  with \<open>nodeIndex x = Some n\<close> assms
  show "n \<in> {n. \<exists>i \<in> set [0..<N]. nodeIndex (xs ! i) = Some n}" by auto
qed

lemma entry_keys:
  assumes "wellSized cfg entry"
  shows "fst ` set (gprTuples entry [0..<numberOfGPRs cfg] @ fprTuples entry [0..<numberOfFPRs cfg])
           = entryNodes entry"
proof -
  have g: "{n. \<exists>i \<in> set [0..<numberOfGPRs cfg]. nodeIndex (m_gprInfo entry ! i) = Some n} =
           {n. Some n \<in> nodeIndex ` set (m_gprInfo entry)}"
    using assms by (intro nodes_of_list) (simp add: wellSized_def)
  have f: "{n. \<exists>i \<in> set [0..<numberOfFPRs cfg]. nodeIndex (m_fprInfo entry ! i) = Some n} =
           {n. Some n \<in> nodeIndex ` set (m_fprInfo entry)}"
    using assms by (intro nodes_of_list) (simp add: wellSized_def)
  show ?thesis
    unfolding set_append image_Un gprTuples_keys fprTuples_keys g f entryNodes_def by auto
qed

lemma scratchGPR_discoverGPR:
  "(scratchGPR (foldl (discoverGPR check entry) b idxs) = None) =
     (scratchGPR b = None \<and> (\<forall>i \<in> set idxs. \<not> freeOnBothSides check entry i))"
  by (induction idxs arbitrary: b)
     (auto simp: discoverGPR_def Let_def freeOnBothSides_def split: option.splits)

lemma scratchGPR_linkGPR:
  "entryNodeToRegisterMap b = m \<Longrightarrow>
   (scratchGPR (foldl (linkGPR cfg graph check entry) b idxs) = None) =
     (scratchGPR b = None \<and> (\<forall>i \<in> set idxs. \<not> deadOnEntry m check entry i))"
proof (induction idxs arbitrary: b)
  case Nil
  then show ?case by simp
next
  case (Cons i idxs)
  have m: "entryNodeToRegisterMap (linkGPR cfg graph check entry b i) = m"
    using Cons.prems by (simp add: linkGPR_fields)
  have "(scratchGPR (linkGPR cfg graph check entry b i) = None) =
          (scratchGPR b = None \<and> \<not> deadOnEntry m check entry i)"
    using Cons.prems
    by (auto simp: linkGPR_def Let_def spillGPR_fields deadOnEntry_def split: option.splits)
  with Cons.IH[OF m] show ?case by auto
qed

text \<open>No loop ever picks the tag-mask register.\<close>

lemma discoverGPR_not_tagMask:
  "scratchGPR b \<noteq> Some TagMaskRegister \<Longrightarrow>
   scratchGPR (discoverGPR check entry b i) \<noteq> Some TagMaskRegister"
  by (auto simp: discoverGPR_def Let_def split: option.splits)

lemma linkGPR_not_tagMask:
  "scratchGPR b \<noteq> Some TagMaskRegister \<Longrightarrow>
   scratchGPR (linkGPR cfg graph check entry b i) \<noteq> Some TagMaskRegister"
  by (auto simp: linkGPR_def Let_def spillGPR_fields split: option.splits)

lemma available_split:
  assumes "fst ` set m = entryNodes entry"
  shows "availableAsScratch check entry i =
           (freeOnBothSides check entry i \<or> deadOnEntry m check entry i)"
  using assms
  by (auto simp: availableAsScratch_def freeOnBothSides_def deadOnEntry_def mapFind_None
           split: option.splits)

lemma scratch_after_GPRs:
  assumes "wellSized cfg entry"
  shows "needToRestoreTagMaskRegister (bridgeAfterGPRs cfg graph check entry recovery) =
           (\<not> (\<exists>index < numberOfGPRs cfg. availableAsScratch check entry index))"
    and "needToRestoreTagMaskRegister (bridgeAfterGPRs cfg graph check entry recovery) =
           (scratchGPR (bridgeAfterGPRs cfg graph check entry recovery) = Some TagMaskRegister)"
    and "scratchGPR (bridgeAfterGPRs cfg graph check entry recovery) \<noteq> None"
proof -
  let ?b0 = "bridgeInit cfg check recovery"
  let ?b1 = "foldl (discoverGPR check entry) ?b0 [0..<numberOfGPRs cfg]"
  let ?b2 = "foldl (discoverFPR check entry) ?b1 [0..<numberOfFPRs cfg]"
  let ?b3 = "foldl (linkGPR cfg graph check entry) ?b2 [0..<numberOfGPRs cfg]"
  let ?m = "gprTuples entry [0..<numberOfGPRs cfg] @ fprTuples entry [0..<numberOfFPRs cfg]"
  have b4: "bridgeAfterGPRs cfg graph check entry recovery = borrowTagMaskRegister ?b3"
    by (simp add: bridgeAfterGPRs_def Let_def)
  have m: "entryNodeToRegisterMap ?b2 = ?m"
    by (rule discovered_maps)
  have s1: "(scratchGPR ?b1 = None) =
              (\<forall>i \<in> set [0..<numberOfGPRs cfg]. \<not> freeOnBothSides check entry i)"
    by (simp add: scratchGPR_discoverGPR bridgeInit_def)
  have s2: "scratchGPR ?b2 = scratchGPR ?b1"
    by (rule foldl_field) (simp add: discoverFPR_fields)
  have s3: "(scratchGPR ?b3 = None) =
              (scratchGPR ?b2 = None
               \<and> (\<forall>i \<in> set [0..<numberOfGPRs cfg]. \<not> deadOnEntry ?m check entry i))"
    using m by (rule scratchGPR_linkGPR)
  have none: "(scratchGPR ?b3 = None) =
                (\<not> (\<exists>index < numberOfGPRs cfg. availableAsScratch check entry index))"
    unfolding s3 s2 s1 available_split[OF entry_keys[OF assms]] by auto
  have r3: "\<not> needToRestoreTagMaskRegister ?b3"
  proof -
    have "needToRestoreTagMaskRegister ?b1 = needToRestoreTagMaskRegister ?b0"
      by (rule foldl_field) (simp add: discoverGPR_fields)
    moreover have "needToRestoreTagMaskRegister ?b2 = needToRestoreTagMaskRegister ?b1"
      by (rule foldl_field) (simp add: discoverFPR_fields)
    moreover have "needToRestoreTagMaskRegister ?b3 = needToRestoreTagMaskRegister ?b2"
      by (rule foldl_field) (simp add: linkGPR_fields)
    ultimately show ?thesis by (simp add: bridgeInit_def)
  qed
  have t3: "scratchGPR ?b3 \<noteq> Some TagMaskRegister"
  proof -
    have "scratchGPR ?b1 \<noteq> Some TagMaskRegister"
      by (rule foldl_invariant) (simp_all add: bridgeInit_def discoverGPR_not_tagMask)
    then have "scratchGPR ?b2 \<noteq> Some TagMaskRegister"
      using s2 by simp
    then show ?thesis
      by (rule foldl_invariant) (simp add: linkGPR_not_tagMask)
  qed
  show "needToRestoreTagMaskRegister (bridgeAfterGPRs cfg graph check entry recovery) =
           (\<not> (\<exists>index < numberOfGPRs cfg. availableAsScratch check entry index))"
    using none r3 by (auto simp: b4 borrowTagMaskRegister_def)
  show "needToRestoreTagMaskRegister (bridgeAfterGPRs cfg graph check entry recovery) =
           (scratchGPR (bridgeAfterGPRs cfg graph check entry recovery) = Some TagMaskRegister)"
    using r3 t3 by (auto simp: b4 borrowTagMaskRegister_def)
  show "scratchGPR (bridgeAfterGPRs cfg graph check entry recovery) \<noteq> None"
    by (auto simp: b4 borrowTagMaskRegister_def)
qed




subsection \<open>Identical register maps\<close>

lemma mapFind_unique:
  "distinct (map fst m) \<Longrightarrow> (n, r) \<in> set m \<Longrightarrow> mapFind m n = Some (n, r)"
proof (induction m rule: rev_induct)
  case Nil
  then show ?case by simp
next
  case (snoc t m)
  show ?case
  proof (cases "fst t = n")
    case True
    with snoc.prems have "t = (n, r)"
      by (cases t) (auto simp: image_iff)
    then show ?thesis by (simp add: mapFind_def)
  next
    case False
    with snoc show ?thesis by (auto simp: mapFind_def)
  qed
qed

lemma tuples_keys_list:
  "map fst (gprTuples maps idxs) =
     concat (map (\<lambda>i. case nodeIndex (m_gprInfo maps ! i) of Some n \<Rightarrow> [n] | None \<Rightarrow> []) idxs)"
  "map fst (fprTuples maps idxs) =
     concat (map (\<lambda>i. case nodeIndex (m_fprInfo maps ! i) of Some n \<Rightarrow> [n] | None \<Rightarrow> []) idxs)"
  by (induction idxs) (auto simp: gprTuples_def fprTuples_def split: option.splits)

lemma map_nth_upt: "length xs = N \<Longrightarrow> map (\<lambda>i. f (xs ! i)) [0..<N] = map f xs"
  by (auto intro: nth_equalityI)

lemma tuples_keys_nodes:
  assumes "wellSized cfg maps"
  shows "map fst (gprTuples maps [0..<numberOfGPRs cfg] @ fprTuples maps [0..<numberOfFPRs cfg])
           = nodesOf maps"
proof -
  have g: "map (\<lambda>i. case nodeIndex (m_gprInfo maps ! i) of Some n \<Rightarrow> [n] | None \<Rightarrow> [])
             [0..<numberOfGPRs cfg] =
           map (\<lambda>r. case nodeIndex r of Some n \<Rightarrow> [n] | None \<Rightarrow> []) (m_gprInfo maps)"
    using assms by (intro map_nth_upt) (simp add: wellSized_def)
  have f: "map (\<lambda>i. case nodeIndex (m_fprInfo maps ! i) of Some n \<Rightarrow> [n] | None \<Rightarrow> [])
             [0..<numberOfFPRs cfg] =
           map (\<lambda>r. case nodeIndex r of Some n \<Rightarrow> [n] | None \<Rightarrow> []) (m_fprInfo maps)"
    using assms by (intro map_nth_upt) (simp add: wellSized_def)
  show ?thesis
    by (simp add: tuples_keys_list g f nodesOf_def)
qed

lemma gprTuples_member:
  "i \<in> set idxs \<Longrightarrow> nodeIndex (m_gprInfo maps ! i) = Some n \<Longrightarrow>
   (n, createGPR (GPR i)) \<in> set (gprTuples maps idxs)"
  by (induction idxs) (auto simp: gprTuples_Cons)

lemma fprTuples_member:
  "i \<in> set idxs \<Longrightarrow> nodeIndex (m_fprInfo maps ! i) = Some n \<Longrightarrow>
   (n, createFPR (FPR i)) \<in> set (fprTuples maps idxs)"
  by (induction idxs) (auto simp: fprTuples_Cons)

lemma find_own_register:
  assumes "wellSized cfg maps" and "uniqueNodes maps"
  shows "i < numberOfGPRs cfg \<Longrightarrow> nodeIndex (m_gprInfo maps ! i) = Some n \<Longrightarrow>
           mapFind (gprTuples maps [0..<numberOfGPRs cfg] @ fprTuples maps [0..<numberOfFPRs cfg]) n
             = Some (n, createGPR (GPR i))"
    and "j < numberOfFPRs cfg \<Longrightarrow> nodeIndex (m_fprInfo maps ! j) = Some n \<Longrightarrow>
           mapFind (gprTuples maps [0..<numberOfGPRs cfg] @ fprTuples maps [0..<numberOfFPRs cfg]) n
             = Some (n, createFPR (FPR j))"
proof -
  have d: "distinct (map fst (gprTuples maps [0..<numberOfGPRs cfg]
                               @ fprTuples maps [0..<numberOfFPRs cfg]))"
    using assms unfolding tuples_keys_nodes[OF assms(1)] uniqueNodes_def by simp
  show "i < numberOfGPRs cfg \<Longrightarrow> nodeIndex (m_gprInfo maps ! i) = Some n \<Longrightarrow>
           mapFind (gprTuples maps [0..<numberOfGPRs cfg] @ fprTuples maps [0..<numberOfFPRs cfg]) n
             = Some (n, createGPR (GPR i))"
    using gprTuples_member[of i "[0..<numberOfGPRs cfg]" maps n]
    by (intro mapFind_unique[OF d]) simp
  show "j < numberOfFPRs cfg \<Longrightarrow> nodeIndex (m_fprInfo maps ! j) = Some n \<Longrightarrow>
           mapFind (gprTuples maps [0..<numberOfGPRs cfg] @ fprTuples maps [0..<numberOfFPRs cfg]) n
             = Some (n, createFPR (FPR j))"
    using fprTuples_member[of j "[0..<numberOfFPRs cfg]" maps n]
    by (intro mapFind_unique[OF d]) simp
qed

lemma need_same: "\<not> needDataFormatConversion f f"
  by (cases f) (simp_all add: needDataFormatConversion_def)

lemma selfLinked_initial: "selfLinked cfg (initialShuffle cfg)"
  by (auto simp: selfLinked_def initialShuffle_def newShuffledRegister_def registerAt_def nth_append)

lemma selfLinked_update:
  assumes "selfLinked cfg regs"
    and "i < length regs \<Longrightarrow>
           reg r = registerAt cfg i \<and>
           ((\<not> hasFrom r \<and> \<not> hasTo r) \<or> (previous r = Some i \<and> hasFrom r \<and> hasTo r))"
  shows "selfLinked cfg (regs[i := r])"
proof -
  have len: "length (regs[i := r]) = numberOfGPRs cfg + numberOfFPRs cfg"
    using assms(1) by (simp add: selfLinked_def)
  have "reg (regs[i := r] ! k) = registerAt cfg k \<and>
        ((\<not> hasFrom (regs[i := r] ! k) \<and> \<not> hasTo (regs[i := r] ! k)) \<or>
         (previous (regs[i := r] ! k) = Some k \<and> hasFrom (regs[i := r] ! k)
          \<and> hasTo (regs[i := r] ! k)))"
    if k: "k < length (regs[i := r])" for k
  proof (cases "k = i")
    case True
    with k assms(2) show ?thesis by simp
  next
    case False
    with k assms(1) show ?thesis by (simp add: selfLinked_def)
  qed
  with len show ?thesis
    unfolding selfLinked_def by blast
qed

lemma selfLinked_nth:
  assumes "selfLinked cfg regs" and "i < numberOfGPRs cfg + numberOfFPRs cfg"
  shows "reg (regs ! i) = registerAt cfg i"
    and "(\<not> hasFrom (regs ! i) \<and> \<not> hasTo (regs ! i)) \<or>
         (previous (regs ! i) = Some i \<and> hasFrom (regs ! i) \<and> hasTo (regs ! i))"
    and "i < length regs"
  using assms by (simp_all add: selfLinked_def)

lemma selfLinked_link:
  assumes "selfLinked cfg regs" and "i < numberOfGPRs cfg + numberOfFPRs cfg"
  shows "selfLinked cfg (linkRegisters cfg regs i (registerAt cfg i))"
proof -
  have l: "lookup cfg (registerAt cfg i) = i"
    using assms(2) by (auto simp: lookup_def registerAt_def)
  have len: "i < length regs"
    using assms by (simp add: selfLinked_def)
  have "linkRegisters cfg regs i (registerAt cfg i) =
          regs[i := (regs ! i) \<lparr> hasFrom := True, previous := Some i, hasTo := True \<rparr>]"
    using len by (simp add: linkRegisters_def Let_def l)
  moreover have "selfLinked cfg
          (regs[i := (regs ! i) \<lparr> hasFrom := True, previous := Some i, hasTo := True \<rparr>])"
    using assms(1) by (rule selfLinked_update) (simp add: selfLinked_nth(1)[OF assms])
  ultimately show ?thesis by simp
qed

lemma selfLinked_handled:
  assumes "selfLinked cfg regs"
  shows "selfLinked cfg (regs[i := (regs ! i) \<lparr> handled := True \<rparr>])"
  using assms
proof (rule selfLinked_update)
  assume "i < length regs"
  then show "reg ((regs ! i) \<lparr> handled := True \<rparr>) = registerAt cfg i \<and>
           ((\<not> hasFrom ((regs ! i) \<lparr> handled := True \<rparr>) \<and> \<not> hasTo ((regs ! i) \<lparr> handled := True \<rparr>)) \<or>
            (previous ((regs ! i) \<lparr> handled := True \<rparr>) = Some i \<and> hasFrom ((regs ! i) \<lparr> handled := True \<rparr>)
             \<and> hasTo ((regs ! i) \<lparr> handled := True \<rparr>)))"
    using assms by (simp add: selfLinked_def)
qed

lemma foldl_invariant_set:
  "P b \<Longrightarrow> (\<And>b i. i \<in> set idxs \<Longrightarrow> P b \<Longrightarrow> P (f b i)) \<Longrightarrow> P (foldl f b idxs)"
  by (induction idxs arbitrary: b) auto

lemma foldOption_total:
  "P b \<Longrightarrow> (\<And>b i. i \<in> set idxs \<Longrightarrow> P b \<Longrightarrow> \<exists>b'. f b i = Some b' \<and> P b') \<Longrightarrow>
   \<exists>b'. foldOption f b idxs = Some b' \<and> P b'"
proof (induction idxs arbitrary: b)
  case Nil
  then show ?case by simp
next
  case (Cons i idxs)
  from Cons.prems obtain b1 where s: "f b i = Some b1" and p: "P b1"
    by (meson list.set_intros(1))
  have "\<exists>b'. foldOption f b1 idxs = Some b' \<and> P b'"
    using p Cons.prems(2) by (intro Cons.IH) auto
  with s show ?case by simp
qed

lemma findInfo_same:
  "sameRegisterMaps check entry \<Longrightarrow> findInfo r entry = findInfo r check"
  by (auto simp: findInfo_def sameRegisterMaps_def
           split: GeneralizedRegister.splits GPRReg.splits FPRReg.splits)

lemma tuples_same:
  "sameRegisterMaps check entry \<Longrightarrow> gprTuples entry idxs = gprTuples check idxs"
  "sameRegisterMaps check entry \<Longrightarrow> fprTuples entry idxs = fprTuples check idxs"
  by (simp_all add: gprTuples_def fprTuples_def sameRegisterMaps_def)

lemma registerAt_simps:
  "i < numberOfGPRs cfg \<Longrightarrow> registerAt cfg i = createGPR (GPR i)"
  "registerAt cfg (numberOfGPRs cfg + j) = createFPR (FPR j)"
  by (simp_all add: registerAt_def)

lemma findInfo_simps:
  "findInfo (createGPR (GPR i)) maps = m_gprInfo maps ! i"
  "findInfo (createFPR (FPR j)) maps = m_fprInfo maps ! j"
  by (simp_all add: findInfo_def)

lemma emit_nothing: "emit b [] = b"
  by (simp add: emit_def)

lemma linkGPR_same:
  assumes w: "wellSized cfg check" and s: "sameRegisterMaps check entry" and u: "uniqueNodes check"
    and m: "entryNodeToRegisterMap b =
              gprTuples check [0..<numberOfGPRs cfg] @ fprTuples check [0..<numberOfFPRs cfg]"
    and l: "selfLinked cfg (shuffled b)"
    and i: "i < numberOfGPRs cfg"
  shows "\<exists>regs. linkGPR cfg graph check entry b i = b \<lparr> shuffled := regs \<rparr> \<and> selfLinked cfg regs"
proof (cases "nodeIndex (m_gprInfo check ! i)")
  case None
  then have "linkGPR cfg graph check entry b i = b \<lparr> shuffled := shuffled b \<rparr>"
    by (simp add: linkGPR_def)
  with l show ?thesis by blast
next
  case (Some n)
  let ?regs = "linkRegisters cfg (shuffled b) i (registerAt cfg i)"
  have f: "mapFind (entryNodeToRegisterMap b) n = Some (n, createGPR (GPR i))"
    unfolding m using find_own_register(1)[OF w u i Some] .
  have e: "isSpilled (findInfo (createGPR (GPR i)) entry) = isSpilled (m_gprInfo check ! i)"
    by (simp add: findInfo_same[OF s] findInfo_simps)
  have "linkGPR cfg graph check entry b i = b \<lparr> shuffled := ?regs \<rparr>"
    by (simp add: linkGPR_def Some f Let_def e spillGPR_def registerAt_simps(1)[OF i])
  moreover have "selfLinked cfg ?regs"
    using l i by (intro selfLinked_link) simp_all
  ultimately show ?thesis by blast
qed

lemma linkFPR_same:
  assumes w: "wellSized cfg check" and s: "sameRegisterMaps check entry" and u: "uniqueNodes check"
    and m: "entryNodeToRegisterMap b =
              gprTuples check [0..<numberOfGPRs cfg] @ fprTuples check [0..<numberOfFPRs cfg]"
    and l: "selfLinked cfg (shuffled b)"
    and j: "j < numberOfFPRs cfg"
  shows "\<exists>regs. linkFPR cfg graph check entry g b j = b \<lparr> shuffled := regs \<rparr> \<and> selfLinked cfg regs"
proof (cases "nodeIndex (m_fprInfo check ! j)")
  case None
  then have "linkFPR cfg graph check entry g b j = b \<lparr> shuffled := shuffled b \<rparr>"
    by (simp add: linkFPR_def)
  with l show ?thesis by blast
next
  case (Some n)
  let ?regs = "linkRegisters cfg (shuffled b) (numberOfGPRs cfg + j)
                 (registerAt cfg (numberOfGPRs cfg + j))"
  have f: "mapFind (entryNodeToRegisterMap b) n = Some (n, createFPR (FPR j))"
    unfolding m using find_own_register(2)[OF w u j Some] .
  have e: "isSpilled (findInfo (createFPR (FPR j)) entry) = isSpilled (m_fprInfo check ! j)"
    by (simp add: findInfo_same[OF s] findInfo_simps)
  have "linkFPR cfg graph check entry g b j = b \<lparr> shuffled := ?regs \<rparr>"
    by (simp add: linkFPR_def Some f Let_def e spillFPR_def registerAt_simps(2))
  moreover have "selfLinked cfg ?regs"
    using l j by (intro selfLinked_link) simp_all
  ultimately show ?thesis by blast
qed

lemma shuffleChain_same:
  assumes "selfLinked cfg (shuffled b)" and "i < numberOfGPRs cfg + numberOfFPRs cfg"
  shows "shuffleChain check entry b i = Some b"
  using selfLinked_nth(2)[OF assms]
  by (auto simp: shuffleChain_def Let_def isEndOfNonCyclingPermutation_def)

lemma shuffleCycle_same:
  assumes s: "sameRegisterMaps check entry"
    and l: "selfLinked cfg (shuffled b)" and i: "i < numberOfGPRs cfg + numberOfFPRs cfg"
  shows "\<exists>regs. shuffleCycle check entry g b i = Some (b \<lparr> shuffled := regs \<rparr>)
               \<and> selfLinked cfg regs"
proof (cases "handled (shuffled b ! i) \<or> (\<not> hasFrom (shuffled b ! i) \<and> \<not> hasTo (shuffled b ! i))")
  case True
  then have "shuffleCycle check entry g b i = Some (b \<lparr> shuffled := shuffled b \<rparr>)"
    by (simp add: shuffleCycle_def Let_def)
  with l show ?thesis by blast
next
  case False
  let ?regs = "(shuffled b)[i := (shuffled b ! i) \<lparr> handled := True \<rparr>]"
  from False selfLinked_nth(2)[OF l i] have p: "previous (shuffled b ! i) = Some i"
    by blast
  have len: "length (shuffled b) = Suc (numberOfGPRs cfg + numberOfFPRs cfg - 1)"
    using l i by (simp add: selfLinked_def)
  have c: "cycleLength (length (shuffled b)) (shuffled b) i i 0 = Some (?regs, 1, i)"
    unfolding len by (simp add: p Let_def)
  have l': "selfLinked cfg ?regs"
    using l by (rule selfLinked_handled)
  have r: "reg (?regs ! i) = registerAt cfg i"
    using selfLinked_nth(1)[OF l' i] .
  have v: "convert (registerAt cfg i) (previousDataFormat (registerAt cfg i) check)
             (nextDataFormat (registerAt cfg i) entry) = Some []"
    by (simp add: convert_def previousDataFormat_def nextDataFormat_def findInfo_same[OF s]
                  need_same)
  have "handleCyclingPermutation (length (shuffled b)) check entry (shuffled b) i g
          (scratchFPR1 b) (scratchFPR2 b) = Some ([], ?regs)"
    unfolding handleCyclingPermutation_def c by (simp add: Let_def r v del: nth_list_update_eq)
  then have "shuffleCycle check entry g b i = Some (b \<lparr> shuffled := ?regs \<rparr>)"
    using False by (auto simp: shuffleCycle_def Let_def emit_nothing)
  with l' show ?thesis by blast
qed

lemma fillFPR_same:
  assumes w: "wellSized cfg check" and s: "sameRegisterMaps check entry" and u: "uniqueNodes check"
    and m: "checkNodeToRegisterMap b =
              gprTuples check [0..<numberOfGPRs cfg] @ fprTuples check [0..<numberOfFPRs cfg]"
    and j: "j < numberOfFPRs cfg"
  shows "fillFPR graph check entry b j = b"
proof (cases "nodeIndex (m_fprInfo check ! j)")
  case None
  then show ?thesis using s by (simp add: fillFPR_def sameRegisterMaps_def)
next
  case (Some n)
  have f: "mapFind (checkNodeToRegisterMap b) n = Some (n, createFPR (FPR j))"
    unfolding m using find_own_register(2)[OF w u j Some] .
  show ?thesis
    using s Some by (simp add: fillFPR_def sameRegisterMaps_def needsFill_def f findInfo_simps)
qed

lemma fillGPR_same:
  assumes w: "wellSized cfg check" and s: "sameRegisterMaps check entry" and u: "uniqueNodes check"
    and m: "checkNodeToRegisterMap b =
              gprTuples check [0..<numberOfGPRs cfg] @ fprTuples check [0..<numberOfFPRs cfg]"
    and i: "i < numberOfGPRs cfg"
  shows "fillGPR graph check entry b i = b"
proof (cases "nodeIndex (m_gprInfo check ! i)")
  case None
  then show ?thesis using s by (simp add: fillGPR_def sameRegisterMaps_def)
next
  case (Some n)
  have f: "mapFind (checkNodeToRegisterMap b) n = Some (n, createGPR (GPR i))"
    unfolding m using find_own_register(1)[OF w u i Some] .
  show ?thesis
    using s Some by (simp add: fillGPR_def sameRegisterMaps_def needsFill_def f findInfo_simps)
qed

lemma all_occupied:
  assumes "wellSized cfg check" and "sameRegisterMaps check entry"
  shows "(\<not> (\<exists>index < numberOfGPRs cfg. availableAsScratch check entry index)) =
           (\<forall>r \<in> set (m_gprInfo check). nodeIndex r \<noteq> None)"
proof -
  have a: "availableAsScratch check entry index = (nodeIndex (m_gprInfo check ! index) = None)"
    for index
    using assms(2)
    by (auto simp: availableAsScratch_def sameRegisterMaps_def split: option.splits)
  have "(\<forall>r \<in> set (m_gprInfo check). nodeIndex r \<noteq> None) =
          (\<forall>index < length (m_gprInfo check). nodeIndex (m_gprInfo check ! index) \<noteq> None)"
    by (simp add: all_set_conv_all_nth)
  then show ?thesis
    using assms(1) by (simp add: a wellSized_def)
qed

text \<open>
  Identical register maps with every GPR occupied: the bridge borrows the tag-mask
  register and emits its restoration.
\<close>

theorem identity_bridge_restores_tagMask:
  "sameRegisterMaps occupiedCheck occupiedEntry \<and> uniqueNodes occupiedCheck
   \<and> (\<exists>b. jumpFromSpeculativeToNonSpeculative examplePlatform plainGraph occupiedCheck
             occupiedEntry None = Some b
          \<and> emitted b = [MoveImmPtr TagMask TagMaskRegister, JumpTo 0x3000])"
proof -
  have "sameRegisterMaps occupiedCheck occupiedEntry"
    by (simp add: sameRegisterMaps_def occupiedCheck_def occupiedEntry_def)
  moreover have "uniqueNodes occupiedCheck"
    by code_simp
  moreover have "map_option emitted
          (jumpFromSpeculativeToNonSpeculative examplePlatform plainGraph occupiedCheck
             occupiedEntry None) =
        Some [MoveImmPtr TagMask TagMaskRegister, JumpTo 0x3000]"
    by code_simp
  ultimately show ?thesis by auto
qed

text \<open>
  C9 (amended). For identical register maps in which no node is in two registers, the
  bridge emits the recovery pre-pass, then the restoration of the tag-mask register when
  every GPR is occupied and nothing when some GPR is unused, then the jump to the entry;
  it emits no move, swap, spill, fill or conversion.
\<close>

theorem identity_bridge:
  assumes w: "wellSized cfg check" and s: "sameRegisterMaps check entry"
    and u: "uniqueNodes check"
  shows "\<exists>b. jumpFromSpeculativeToNonSpeculative cfg graph check entry recovery = Some b
            \<and> emitted b =
                bridgeRecovery check recovery
                  @ (if \<forall>r \<in> set (m_gprInfo check). nodeIndex r \<noteq> None
                     then [MoveImmPtr TagMask TagMaskRegister] else [])
                  @ [JumpTo (m_entry entry)]"
proof -
  let ?nG = "numberOfGPRs cfg" and ?nF = "numberOfFPRs cfg"
  let ?M = "gprTuples check [0..<?nG] @ fprTuples check [0..<?nF]"
  let ?rec = "bridgeRecovery check recovery"
  let ?b0 = "bridgeInit cfg check recovery"
  let ?b1 = "foldl (discoverGPR check entry) ?b0 [0..<?nG]"
  let ?b2 = "foldl (discoverFPR check entry) ?b1 [0..<?nF]"
  let ?b3 = "foldl (linkGPR cfg graph check entry) ?b2 [0..<?nG]"
  let ?b4 = "bridgeAfterGPRs cfg graph check entry recovery"
  let ?P = "\<lambda>b :: Bridge. entryNodeToRegisterMap b = ?M \<and> checkNodeToRegisterMap b = ?M
               \<and> selfLinked cfg (shuffled b) \<and> emitted b = ?rec
               \<and> needToRestoreTagMaskRegister b = needToRestoreTagMaskRegister ?b4"
  have we: "wellSized cfg entry"
    using w s by (simp add: wellSized_def sameRegisterMaps_def)
  have b4: "?b4 = borrowTagMaskRegister ?b3"
    by (simp add: bridgeAfterGPRs_def Let_def)
  have m2: "entryNodeToRegisterMap ?b2 = ?M" "checkNodeToRegisterMap ?b2 = ?M"
    by (simp_all add: discovered_maps tuples_same[OF s])
  have sh2: "shuffled ?b2 = initialShuffle cfg"
  proof -
    have "shuffled ?b2 = shuffled ?b1"
      by (rule foldl_field) (simp add: discoverFPR_fields)
    also have "\<dots> = shuffled ?b0"
      by (rule foldl_field) (simp add: discoverGPR_fields)
    finally show ?thesis by (simp add: bridgeInit_def)
  qed
  have e2: "emitted ?b2 = ?rec"
  proof -
    have "emitted ?b2 = emitted ?b1"
      by (rule foldl_field) (simp add: discoverFPR_fields)
    also have "\<dots> = emitted ?b0"
      by (rule foldl_field) (simp add: discoverGPR_fields)
    finally show ?thesis by (simp add: bridgeInit_def)
  qed
  let ?Q = "\<lambda>b :: Bridge. entryNodeToRegisterMap b = ?M \<and> checkNodeToRegisterMap b = ?M
               \<and> selfLinked cfg (shuffled b) \<and> emitted b = ?rec"
  have q3: "?Q ?b3"
  proof (rule foldl_invariant_set)
    show "?Q ?b2"
      using m2 sh2 e2 by (simp add: selfLinked_initial)
  next
    fix b :: Bridge and i assume i: "i \<in> set [0..<?nG]" and q: "?Q b"
    from linkGPR_same[OF w s u, of b i graph] q i obtain regs where
      "linkGPR cfg graph check entry b i = b \<lparr> shuffled := regs \<rparr>" "selfLinked cfg regs"
      by auto
    with q show "?Q (linkGPR cfg graph check entry b i)" by simp
  qed
  have p4: "?P ?b4"
    using q3 by (simp add: b4 borrowTagMaskRegister_def)
  from scratch_after_GPRs(3)[OF we, of graph check recovery] obtain g where
    g: "scratchGPR ?b4 = Some g"
    by auto
  let ?b5 = "foldl (linkFPR cfg graph check entry g) ?b4 [0..<?nF]"
  have p5: "?P ?b5"
  proof (rule foldl_invariant_set)
    show "?P ?b4" by (rule p4)
  next
    fix b :: Bridge and j assume j: "j \<in> set [0..<?nF]" and p: "?P b"
    from linkFPR_same[OF w s u, of b j graph g] p j obtain regs where
      "linkFPR cfg graph check entry g b j = b \<lparr> shuffled := regs \<rparr>" "selfLinked cfg regs"
      by auto
    with p show "?P (linkFPR cfg graph check entry g b j)" by simp
  qed
  have c6: "foldOption (shuffleChain check entry) ?b5 [0..<?nG + ?nF] = Some ?b5"
  proof -
    have "\<exists>b'. foldOption (shuffleChain check entry) ?b5 [0..<?nG + ?nF] = Some b' \<and> b' = ?b5"
    proof (rule foldOption_total)
      show "?b5 = ?b5" by simp
    next
      fix b :: Bridge and i assume "i \<in> set [0..<?nG + ?nF]" and "b = ?b5"
      then show "\<exists>b'. shuffleChain check entry b i = Some b' \<and> b' = ?b5"
        using shuffleChain_same[of cfg ?b5 i check entry] p5 by simp
    qed
    then show ?thesis by simp
  qed
  have "\<exists>b7. foldOption (shuffleCycle check entry g) ?b5 [0..<?nG + ?nF] = Some b7 \<and> ?P b7"
  proof (rule foldOption_total)
    show "?P ?b5" by (rule p5)
  next
    fix b :: Bridge and i assume i: "i \<in> set [0..<?nG + ?nF]" and p: "?P b"
    from shuffleCycle_same[OF s, of cfg b i g] p i obtain regs where
      "shuffleCycle check entry g b i = Some (b \<lparr> shuffled := regs \<rparr>)" "selfLinked cfg regs"
      by auto
    with p show "\<exists>b'. shuffleCycle check entry g b i = Some b' \<and> ?P b'" by simp
  qed
  then obtain b7 where
    y7: "foldOption (shuffleCycle check entry g) ?b5 [0..<?nG + ?nF] = Some b7" and p7: "?P b7"
    by blast
  have f8: "foldl (fillFPR graph check entry) b7 [0..<?nF] = b7"
    by (rule foldl_invariant_set[where P = "\<lambda>b. b = b7"])
       (use fillFPR_same[OF w s u, of b7 _ graph] p7 in simp_all)
  have f9: "foldl (fillGPR graph check entry) b7 [0..<?nG] = b7"
    by (rule foldl_invariant_set[where P = "\<lambda>b. b = b7"])
       (use fillGPR_same[OF w s u, of b7 _ graph] p7 in simp_all)
  have run: "jumpFromSpeculativeToNonSpeculative cfg graph check entry recovery =
               Some (finishBridge entry b7)"
    by (simp add: jumpFromSpeculativeToNonSpeculative_def Let_def g c6 y7 f8 f9)
  have flag: "needToRestoreTagMaskRegister b7 =
                (\<forall>r \<in> set (m_gprInfo check). nodeIndex r \<noteq> None)"
    using p7 scratch_after_GPRs(1)[OF we, of graph check recovery] all_occupied[OF w s]
    by simp
  have "emitted (finishBridge entry b7) =
          ?rec @ (if \<forall>r \<in> set (m_gprInfo check). nodeIndex r \<noteq> None
                  then [MoveImmPtr TagMask TagMaskRegister] else [])
               @ [JumpTo (m_entry entry)]"
    using p7 by (simp add: finishBridge_def flag)
  with run show ?thesis by blast
qed

theorem identity_bridge_witness:
  "wellSized examplePlatform integerCheck \<and> sameRegisterMaps integerCheck integerEntry
   \<and> uniqueNodes integerCheck
   \<and> (\<exists>b. jumpFromSpeculativeToNonSpeculative examplePlatform plainGraph integerCheck
             integerEntry None = Some b
          \<and> emitted b = [JumpTo 0x3000])"
proof -
  have w: "wellSized examplePlatform integerCheck"
    by (simp add: wellSized_def examplePlatform_def integerCheck_def)
  have s: "sameRegisterMaps integerCheck integerEntry"
    by (simp add: sameRegisterMaps_def integerCheck_def integerEntry_def)
  have u: "uniqueNodes integerCheck"
    by code_simp
  have f: "\<not> (\<forall>r \<in> set (m_gprInfo integerCheck). nodeIndex r \<noteq> None)"
    by (simp add: integerCheck_def unusedRegister_def)
  have e: "m_entry integerEntry = 0x3000"
    by (simp add: integerEntry_def)
  from identity_bridge[OF w s u, of plainGraph None] obtain b where
    r: "jumpFromSpeculativeToNonSpeculative examplePlatform plainGraph integerCheck
          integerEntry None = Some b"
    and c: "emitted b =
              bridgeRecovery integerCheck None
                @ (if \<forall>r \<in> set (m_gprInfo integerCheck). nodeIndex r \<noteq> None
                   then [MoveImmPtr TagMask TagMaskRegister] else [])
                @ [JumpTo (m_entry integerEntry)]"
    by blast
  have "emitted b = [JumpTo 0x3000]"
    unfolding c if_not_P[OF f] by (simp add: bridgeRecovery_def e)
  with r w s u show ?thesis by blast
qed

subsection \<open>Cycles\<close>


















end
